theory Spec2Isabelle
  imports Main "HOL-Library.AList" "HOL-Library.List_Lexorder"
begin

section \<open>Docker Model Runner router: shallow embedding\<close>

text \<open>
  The theory embeds \<^verbatim>\<open>backend/open_webui/routers/docker_model_runner.py\<close>.
  Python dictionaries whose iteration order matters are association lists with
  distinct keys in insertion order; exceptions are values of type \<open>error\<close> on the
  left of a sum; the network is an oracle passed as a parameter.
\<close>

subsection \<open>Errors\<close>

text \<open>
  The \<^verbatim>\<open>detail\<close> of an \<^verbatim>\<open>HTTPException\<close> is either a text the router writes out, or
  a prefix followed by \<^verbatim>\<open>str(e)\<close> of a caught exception, whose wording is left abstract.
\<close>

datatype detail = Text string | Exception_text string

datatype error =
    HTTPException nat detail
  | KeyError string
  | ValueError
  | ValidationError
  | IndexError

subsection \<open>Python built-ins used by the router\<close>

text \<open>\<^verbatim>\<open>str(n)\<close> for a non-negative integer: the canonical decimal numeral.\<close>

definition digit_char :: "nat \<Rightarrow> char" where
  "digit_char d = ''0123456789'' ! d"

function str_nat :: "nat \<Rightarrow> string" where
  "str_nat n = (if n < 10 then [digit_char n] else str_nat (n div 10) @ [digit_char (n mod 10)])"
  by pat_completeness auto
termination
  by (relation "measure id") auto

declare str_nat.simps [simp del]

text \<open>\<^verbatim>\<open>str(i)\<close> for any integer (a pinned index comes from the request path).\<close>

definition str_int :: "int \<Rightarrow> string" where
  "str_int i = (if i < 0 then CHR ''-'' # str_nat (nat (- i)) else str_nat (nat i))"

text \<open>\<^verbatim>\<open>xs[i]\<close>: negative indices count from the end, out of range raises.\<close>

definition list_index :: "'a list \<Rightarrow> int \<Rightarrow> error + 'a" where
  "list_index xs i =
     (if 0 \<le> i \<and> i < int (length xs) then Inr (xs ! nat i)
      else if i < 0 \<and> - i \<le> int (length xs) then Inr (xs ! nat (int (length xs) + i))
      else Inl IndexError)"

text \<open>
  \<^verbatim>\<open>random.choice(xs)\<close>: the random source is the parameter \<open>seed\<close>; an empty
  sequence raises \<^verbatim>\<open>IndexError\<close>.
\<close>

definition random_choice :: "nat \<Rightarrow> 'a list \<Rightarrow> error + 'a" where
  "random_choice seed xs = (if xs = [] then Inl IndexError else Inr (xs ! (seed mod length xs)))"

text \<open>The decimal value of a digit string, used to read \<open>str_nat\<close> back.\<close>

definition digit_val :: "char \<Rightarrow> nat option" where
  "digit_val c = map_of (zip ''0123456789'' [0 ..< 10]) c"

fun digits_val :: "nat \<Rightarrow> string \<Rightarrow> nat option" where
  "digits_val acc [] = Some acc"
| "digits_val acc (c # cs) =
     (case digit_val c of None \<Rightarrow> None | Some d \<Rightarrow> digits_val (10 * acc + d) cs)"

definition decimal :: "string \<Rightarrow> nat option" where
  "decimal s = (if s = [] then None else digits_val 0 s)"

subsection \<open>Registry: URL list and per-backend configuration\<close>

text \<open>
  One entry of \<^verbatim>\<open>DOCKER_MODEL_RUNNER_API_CONFIGS\<close>. Every key is optional
  (\<open>None\<close>: the key is absent and \<^verbatim>\<open>.get\<close> returns its default).
\<close>

record api_config =
  cfg_enable :: "bool option"
  cfg_key :: "string option"
  cfg_connection_type :: "string option"
  cfg_prefix_id :: "string option"
  cfg_tags :: "string list option"
  cfg_model_ids :: "string list option"

definition empty_api_config :: api_config where
  "empty_api_config = \<lparr> cfg_enable = None, cfg_key = None, cfg_connection_type = None,
     cfg_prefix_id = None, cfg_tags = None, cfg_model_ids = None \<rparr>"

text \<open>\<^verbatim>\<open>request.app.state.config\<close>, the three settings of this router.\<close>

record config =
  ENABLE_DOCKER_MODEL_RUNNER_API :: "bool option"
  DOCKER_MODEL_RUNNER_BASE_URLS :: "string list"
  DOCKER_MODEL_RUNNER_API_CONFIGS :: "(string \<times> api_config) list"

text \<open>\<^verbatim>\<open>DockerModelRunnerConfigForm\<close>, the body of \<^verbatim>\<open>POST /config/update\<close>.\<close>

record config_form =
  form_ENABLE_DOCKER_MODEL_RUNNER_API :: "bool option"
  form_DOCKER_MODEL_RUNNER_BASE_URLS :: "string list"
  form_DOCKER_MODEL_RUNNER_API_CONFIGS :: "(string \<times> api_config) list"

text \<open>
  \<^verbatim>\<open>update_config\<close> (lines 268-287): the three settings are replaced by the form's,
  then the mapping is rebuilt from the items whose key is in
  \<^verbatim>\<open>list(map(str, range(len(urls))))\<close>. The function has no raising statement.
\<close>

definition update_config :: "config \<Rightarrow> config_form \<Rightarrow> config" where
  "update_config c form_data =
     (let c1 = c \<lparr> ENABLE_DOCKER_MODEL_RUNNER_API := form_ENABLE_DOCKER_MODEL_RUNNER_API form_data \<rparr>;
          c2 = c1 \<lparr> DOCKER_MODEL_RUNNER_BASE_URLS := form_DOCKER_MODEL_RUNNER_BASE_URLS form_data \<rparr>;
          c3 = c2 \<lparr> DOCKER_MODEL_RUNNER_API_CONFIGS := form_DOCKER_MODEL_RUNNER_API_CONFIGS form_data \<rparr>;
          keys = map str_nat [0 ..< length (DOCKER_MODEL_RUNNER_BASE_URLS c3)]
      in c3 \<lparr> DOCKER_MODEL_RUNNER_API_CONFIGS :=
                filter (\<lambda>(key, value). key \<in> set keys) (DOCKER_MODEL_RUNNER_API_CONFIGS c3) \<rparr>)"

subsection \<open>Model records and the merge of backend listings\<close>

text \<open>
  One entry of a backend's \<^verbatim>\<open>models\<close> list: the keys the router reads or writes are
  typed fields, everything else the backend sent is carried in \<open>other\<close>.
  \<open>model = None\<close> is an entry without the key \<^verbatim>\<open>"model"\<close>; \<open>urls = []\<close> is an entry
  without \<^verbatim>\<open>"urls"\<close>, which is how the router reads it (\<^verbatim>\<open>.get("urls", [])\<close>).
\<close>

datatype expiry = Iso string | Epoch int

record model_entry =
  model :: "string option"
  urls :: "nat list"
  tags :: "string list option"
  connection_type :: "string option"
  expires_at :: "expiry option"
  other :: "(string \<times> string) list"

text \<open>
  The body of the inner loop of \<^verbatim>\<open>merge_models_lists\<close> (lines 295-301) on the
  dictionary \<^verbatim>\<open>merged_models\<close>: an entry without a name is skipped, a new name is
  inserted at the end with \<^verbatim>\<open>urls = [idx]\<close>, a known name has \<^verbatim>\<open>idx\<close> appended to
  the stored record's \<^verbatim>\<open>urls\<close>.
\<close>

definition merge_model ::
  "nat \<Rightarrow> (string \<times> model_entry) list \<Rightarrow> model_entry \<Rightarrow> (string \<times> model_entry) list" where
  "merge_model idx merged_models m =
     (case model m of
        None \<Rightarrow> merged_models
      | Some name \<Rightarrow>
          (case map_of merged_models name of
             None \<Rightarrow> merged_models @ [(name, m \<lparr> urls := [idx] \<rparr>)]
           | Some r \<Rightarrow> AList.update name (r \<lparr> urls := urls r @ [idx] \<rparr>) merged_models))"

text \<open>The outer loop over \<^verbatim>\<open>enumerate(model_lists)\<close>; a \<^verbatim>\<open>None\<close> slot is skipped.\<close>

fun merge_from ::
  "nat \<Rightarrow> (string \<times> model_entry) list \<Rightarrow> model_entry list option list \<Rightarrow>
   (string \<times> model_entry) list" where
  "merge_from idx merged_models [] = merged_models"
| "merge_from idx merged_models (model_list # rest) =
     merge_from (Suc idx)
       (case model_list of
          None \<Rightarrow> merged_models
        | Some ms \<Rightarrow> foldl (merge_model idx) merged_models ms)
       rest"

definition merge_models_lists :: "model_entry list option list \<Rightarrow> model_entry list" where
  "merge_models_lists model_lists = map snd (merge_from 0 [] model_lists)"

text \<open>
  Vocabulary for stating what the merge computes: the named entries of all listings
  in registry order, each with the index of its backend; the first entry exposing a
  name; and the indices of all entries exposing it.
\<close>

fun occurrences_from :: "nat \<Rightarrow> model_entry list option list \<Rightarrow> (nat \<times> model_entry) list" where
  "occurrences_from idx [] = []"
| "occurrences_from idx (model_list # rest) =
     (case model_list of None \<Rightarrow> [] | Some ms \<Rightarrow> map (Pair idx) ms)
     @ occurrences_from (Suc idx) rest"

definition occurrences :: "model_entry list option list \<Rightarrow> (nat \<times> model_entry) list" where
  "occurrences model_lists = occurrences_from 0 model_lists"

definition exposes :: "string \<Rightarrow> nat \<times> model_entry \<Rightarrow> bool" where
  "exposes name p = (model (snd p) = Some name)"

definition first_seen :: "string \<Rightarrow> (nat \<times> model_entry) list \<Rightarrow> (nat \<times> model_entry) option" where
  "first_seen name ps = find (exposes name) ps"

definition served_by :: "string \<Rightarrow> (nat \<times> model_entry) list \<Rightarrow> nat list" where
  "served_by name ps = map fst (filter (exposes name) ps)"

definition merge_step ::
  "(string \<times> model_entry) list \<Rightarrow> nat \<times> model_entry \<Rightarrow> (string \<times> model_entry) list" where
  "merge_step acc p = merge_model (fst p) acc (snd p)"

subsection \<open>Application state and backend selection\<close>

text \<open>
  \<^verbatim>\<open>request.app.state\<close>: the configuration and the name-to-record index
  \<^verbatim>\<open>DOCKER_MODEL_RUNNER_MODELS\<close> that \<^verbatim>\<open>get_all_models\<close> replaces on every refresh.
\<close>

record app_state =
  config :: config
  DOCKER_MODEL_RUNNER_MODELS :: "(string \<times> model_entry) list"

text \<open>
  Modelled from the spec: \<^verbatim>\<open>ERROR_MESSAGES.MODEL_NOT_FOUND\<close> is defined in
  \<^verbatim>\<open>open_webui/constants.py\<close>, which is not part of the sources at hand. The spec says
  of it only that the message names the model; the wording around the name is a
  placeholder.
\<close>

definition MODEL_NOT_FOUND :: "string \<Rightarrow> string" where
  "MODEL_NOT_FOUND name = ''Model '' @ name @ '' was not found''"

text \<open>\<open>names msg name\<close>: the name occurs in the message.\<close>

definition names :: "string \<Rightarrow> string \<Rightarrow> bool" where
  "names msg name = (\<exists>i \<le> length msg. take (length name) (drop i msg) = name)"

text \<open>
  \<^verbatim>\<open>get_runner_url\<close> (lines 644-654). Without a pinned index the model is looked up in
  the index and one of the record's \<^verbatim>\<open>urls\<close> is drawn; the chosen or pinned index then
  subscripts the URL list.
\<close>

definition get_runner_url ::
  "app_state \<Rightarrow> string \<Rightarrow> int option \<Rightarrow> nat \<Rightarrow> error + (string \<times> int)" where
  "get_runner_url st model_name url_idx seed =
     (case (case url_idx of
              None \<Rightarrow>
                (case map_of (DOCKER_MODEL_RUNNER_MODELS st) model_name of
                   None \<Rightarrow> Inl (HTTPException 400 (Text (MODEL_NOT_FOUND model_name)))
                 | Some r \<Rightarrow>
                     (case random_choice seed (urls r) of
                        Inl e \<Rightarrow> Inl e
                      | Inr i \<Rightarrow> Inr (int i)))
            | Some i \<Rightarrow> Inr i) of
        Inl e \<Rightarrow> Inl e
      | Inr i \<Rightarrow>
          (case list_index (DOCKER_MODEL_RUNNER_BASE_URLS (config st)) i of
             Inl e \<Rightarrow> Inl e
           | Inr url \<Rightarrow> Inr (url, i)))"

subsection \<open>Chat requests: validation\<close>

text \<open>
  A key of a JSON request body is absent, \<^verbatim>\<open>null\<close>, or a value of the declared type
  (a value of another type fails validation as an absent required key does, and is not
  represented).
\<close>

datatype 'a raw = Absent | Null | Val 'a

record raw_message =
  raw_role :: "string raw"
  raw_content :: "string raw"
  raw_tool_calls :: "string list raw"
  raw_images :: "string list raw"

text \<open>A validated field as the validator sees it in \<^verbatim>\<open>values\<close>.\<close>

datatype field_value = V_none | V_str string | V_list "string list"

record chat_message =
  role :: string
  content :: "string option"
  tool_calls :: "string list option"
  images :: "string list option"

text \<open>
  \<^verbatim>\<open>ChatMessage.check_at_least_one_field\<close> (lines 620-629), the \<^verbatim>\<open>pre\<close> validator of
  the field \<^verbatim>\<open>content\<close>; \<^verbatim>\<open>values\<close> is the dictionary of the fields validated so far.
\<close>

definition check_at_least_one_field ::
  "string option \<Rightarrow> (string \<times> field_value) list \<Rightarrow> error + string option" where
  "check_at_least_one_field field_value values =
     (if field_value = None \<and>
         (map_of values ''tool_calls'' = None \<or> map_of values ''tool_calls'' = Some V_none)
      then Inl ValueError
      else Inr field_value)"

text \<open>
  Construction of a \<^verbatim>\<open>ChatMessage\<close> (lines 614-618) as pydantic performs it: the fields
  are validated in the order of their declaration (\<^verbatim>\<open>role\<close>, \<^verbatim>\<open>content\<close>,
  \<^verbatim>\<open>tool_calls\<close>, \<^verbatim>\<open>images\<close>); a validator runs only for a key the input supplies (it
  is not declared \<^verbatim>\<open>always\<close>), and receives in \<^verbatim>\<open>values\<close> the fields that were
  validated before its own. Any failing field makes the construction raise.
\<close>

definition validate_ChatMessage :: "raw_message \<Rightarrow> error + chat_message" where
  "validate_ChatMessage raw =
     (let role_v = (case raw_role raw of Val s \<Rightarrow> Inr s | Null \<Rightarrow> Inl ValidationError
                    | Absent \<Rightarrow> Inl ValidationError);
          values = (case role_v of Inr s \<Rightarrow> [(''role'', V_str s)] | Inl e \<Rightarrow> []);
          content_v = (case raw_content raw of
                         Absent \<Rightarrow> Inr None
                       | Null \<Rightarrow> check_at_least_one_field None values
                       | Val s \<Rightarrow> check_at_least_one_field (Some s) values);
          tool_calls_v = (case raw_tool_calls raw of Val xs \<Rightarrow> Some xs | Null \<Rightarrow> None
                          | Absent \<Rightarrow> None);
          images_v = (case raw_images raw of Val xs \<Rightarrow> Some xs | Null \<Rightarrow> None | Absent \<Rightarrow> None)
      in case role_v of
           Inl e \<Rightarrow> Inl ValidationError
         | Inr r \<Rightarrow>
             (case content_v of
                Inl e \<Rightarrow> Inl ValidationError
              | Inr c \<Rightarrow> Inr \<lparr> role = r, content = c, tool_calls = tool_calls_v,
                               images = images_v \<rparr>))"

text \<open>A loop that applies a raising function to each element and stops at the first raise.\<close>

fun map_raise :: "('a \<Rightarrow> error + 'b) \<Rightarrow> 'a list \<Rightarrow> error + 'b list" where
  "map_raise f [] = Inr []"
| "map_raise f (x # xs) =
     (case f x of
        Inl e \<Rightarrow> Inl e
      | Inr y \<Rightarrow> (case map_raise f xs of Inl e \<Rightarrow> Inl e | Inr ys \<Rightarrow> Inr (y # ys)))"

text \<open>
  The request body of \<^verbatim>\<open>/api/chat\<close> and \<^verbatim>\<open>GenerateChatCompletionForm\<close> (lines 632-641).
  \<^verbatim>\<open>metadata\<close> is popped before validation; the optional keys that the router never
  reads (\<^verbatim>\<open>format\<close>, \<^verbatim>\<open>options\<close>, \<^verbatim>\<open>tools\<close>, extra keys) are carried in \<open>raw_extra\<close>.
  \<^verbatim>\<open>stream\<close> defaults to \<^verbatim>\<open>True\<close> when absent and is \<^verbatim>\<open>None\<close> when sent as null.
\<close>

record raw_chat_form =
  raw_model :: "string raw"
  raw_messages :: "raw_message list raw"
  raw_stream :: "bool raw"
  raw_metadata :: "string option"
  raw_extra :: "(string \<times> string) list"

record chat_form =
  chat_model :: string
  chat_messages :: "chat_message list"
  chat_stream :: "bool option"
  chat_extra :: "(string \<times> string) list"

definition GenerateChatCompletionForm :: "raw_chat_form \<Rightarrow> error + chat_form" where
  "GenerateChatCompletionForm raw =
     (case raw_model raw of
        Val m \<Rightarrow>
          (case raw_messages raw of
             Val ms \<Rightarrow>
               (case map_raise validate_ChatMessage ms of
                  Inl e \<Rightarrow> Inl ValidationError
                | Inr msgs \<Rightarrow>
                    Inr \<lparr> chat_model = m, chat_messages = msgs,
                          chat_stream = (case raw_stream raw of Absent \<Rightarrow> Some True | Null \<Rightarrow> None
                                         | Val b \<Rightarrow> Some b),
                          chat_extra = raw_extra raw \<rparr>)
           | Null \<Rightarrow> Inl ValidationError
           | Absent \<Rightarrow> Inl ValidationError)
      | Null \<Rightarrow> Inl ValidationError
      | Absent \<Rightarrow> Inl ValidationError)"

subsection \<open>Chat requests: access checks, routing and forwarding\<close>

record user =
  user_id :: string
  user_role :: string
  user_name :: string
  user_email :: string

text \<open>What \<^verbatim>\<open>Models.get_model_by_id\<close> returns for a registered model.\<close>

record model_info =
  base_model_id :: "string option"
  params :: "(string \<times> string) list"
  info_user_id :: string
  access_control :: "string option"

text \<open>
  \<^verbatim>\<open>form_data.model_dump(exclude_none=True)\<close>: the dictionary that is shaped and
  forwarded; a field that is \<open>None\<close> has no key.
\<close>

record payload =
  payload_model :: string
  payload_messages :: "chat_message list"
  payload_stream :: "bool option"
  payload_extra :: "(string \<times> string) list"

text \<open>
  The collaborators that live outside this file are parameters: the access-control
  switch, the model store, the access predicate, the two payload-shaping functions,
  and two library functions (\<^verbatim>\<open>urlparse\<close>, reduced to the \<^verbatim>\<open>scheme://netloc\<close> it is used
  for, and \<^verbatim>\<open>datetime.fromisoformat(s).timestamp()\<close>, \<open>None\<close> when it raises).
\<close>

record collaborators =
  BYPASS_MODEL_ACCESS_CONTROL :: bool
  get_model_by_id :: "string \<Rightarrow> model_info option"
  has_access :: "string \<Rightarrow> string option \<Rightarrow> bool"
  apply_model_params_to_body_ollama :: "(string \<times> string) list \<Rightarrow> payload \<Rightarrow> payload"
  apply_system_prompt_to_body :: "string option \<Rightarrow> payload \<Rightarrow> string option \<Rightarrow> user \<Rightarrow> payload"
  urlparse_base :: "string \<Rightarrow> string"
  iso_timestamp :: "string \<Rightarrow> int option"

text \<open>\<^verbatim>\<open>configs.get(str(idx), configs.get(url, {}))\<close>, the lookup every function repeats.\<close>

definition api_config_for :: "(string \<times> api_config) list \<Rightarrow> string \<Rightarrow> string \<Rightarrow> api_config" where
  "api_config_for configs idx_key url =
     (case map_of configs idx_key of
        Some c \<Rightarrow> c
      | None \<Rightarrow> (case map_of configs url of Some c \<Rightarrow> c | None \<Rightarrow> empty_api_config))"

text \<open>\<^verbatim>\<open>api_config.get("enable", True)\<close>, then tested for truth.\<close>

definition cfg_enabled :: "api_config \<Rightarrow> bool" where
  "cfg_enabled api_config = (case cfg_enable api_config of None \<Rightarrow> True | Some b \<Rightarrow> b)"

text \<open>Backend \<open>idx\<close> of a registry is enabled: its configuration does not switch it off.\<close>

definition backend_enabled :: "config \<Rightarrow> nat \<Rightarrow> bool" where
  "backend_enabled c idx =
     cfg_enabled (api_config_for (DOCKER_MODEL_RUNNER_API_CONFIGS c) (str_nat idx)
                    (DOCKER_MODEL_RUNNER_BASE_URLS c ! idx))"

text \<open>\<^verbatim>\<open>get_api_key\<close> (lines 187-190).\<close>

definition get_api_key ::
  "collaborators \<Rightarrow> string \<Rightarrow> string \<Rightarrow> (string \<times> api_config) list \<Rightarrow> string option" where
  "get_api_key env idx_key url configs = cfg_key (api_config_for configs idx_key (urlparse_base env url))"

text \<open>\<^verbatim>\<open>s.replace(old, "")\<close>: every occurrence of \<open>old\<close>, found left to right, is removed.\<close>

function remove_all :: "string \<Rightarrow> string \<Rightarrow> string" where
  "remove_all old [] = []"
| "remove_all old (c # cs) =
     (if old \<noteq> [] \<and> take (length old) (c # cs) = old
      then remove_all old (drop (length old) (c # cs))
      else c # remove_all old cs)"
  by pat_completeness auto
termination
  by (relation "measure (\<lambda>(old, s). length s)") (auto simp: Suc_le_eq)

text \<open>Python truthiness of an optional string: present and not empty.\<close>

definition truthy_str :: "string option \<Rightarrow> bool" where
  "truthy_str s = (case s of None \<Rightarrow> False | Some x \<Rightarrow> x \<noteq> [])"

text \<open>The arguments of the call of \<^verbatim>\<open>send_post_request\<close> that ends a chat request.\<close>

record post_call =
  post_url :: string
  post_payload :: payload
  post_stream :: "bool option"
  post_key :: "string option"
  post_content_type :: "string option"

text \<open>
  \<^verbatim>\<open>generate_chat_completion\<close>, lines 666-709: validation, the model store's alias
  and parameters, the access checks, and the default tag. The result is the payload
  whose \<^verbatim>\<open>model\<close> is looked up next.
\<close>

definition chat_payload ::
  "collaborators \<Rightarrow> raw_chat_form \<Rightarrow> user \<Rightarrow> bool \<Rightarrow> error + (chat_form \<times> payload)" where
  "chat_payload env form_data usr bypass_filter0 =
     (let bypass_filter = (if BYPASS_MODEL_ACCESS_CONTROL env then True else bypass_filter0);
          metadata = raw_metadata form_data
      in case GenerateChatCompletionForm form_data of
           Inl e \<Rightarrow> Inl (HTTPException 400 (Exception_text []))
         | Inr form \<Rightarrow>
             (let payload0 = \<lparr> payload_model = chat_model form, payload_messages = chat_messages form,
                               payload_stream = chat_stream form, payload_extra = chat_extra form \<rparr>;
                  model_id = payload_model payload0;
                  checked =
                    (case get_model_by_id env model_id of
                       Some info \<Rightarrow>
                         (let payload1 = (if truthy_str (base_model_id info)
                                          then payload0 \<lparr> payload_model := the (base_model_id info) \<rparr>
                                          else payload0);
                              payload2 =
                                (if params info \<noteq> []
                                 then (let system = map_of (params info) ''system'';
                                           rest = AList.delete ''system'' (params info)
                                       in apply_system_prompt_to_body env system
                                            (apply_model_params_to_body_ollama env rest payload1)
                                            metadata usr)
                                 else payload1)
                          in if \<not> bypass_filter \<and> user_role usr = ''user''
                                \<and> \<not> (user_id usr = info_user_id info
                                       \<or> has_access env (user_id usr) (access_control info))
                             then Inl (HTTPException 403 (Text ''Model not found''))
                             else Inr payload2)
                     | None \<Rightarrow>
                         (if \<not> bypass_filter \<and> user_role usr \<noteq> ''admin''
                          then Inl (HTTPException 403 (Text ''Model not found''))
                          else Inr payload0))
              in case checked of
                   Inl e \<Rightarrow> Inl e
                 | Inr p \<Rightarrow>
                     Inr (form,
                          if CHR '':'' \<notin> set (payload_model p)
                          then p \<lparr> payload_model := payload_model p @ '':latest'' \<rparr>
                          else p)))"

text \<open>
  \<^verbatim>\<open>generate_chat_completion\<close>, lines 711-729: the backend is resolved, its prefix is
  removed from the model name, and the arguments of \<^verbatim>\<open>send_post_request\<close> are put
  together.
\<close>

definition chat_route ::
  "collaborators \<Rightarrow> app_state \<Rightarrow> chat_form \<Rightarrow> payload \<Rightarrow> int option \<Rightarrow> nat \<Rightarrow> error + post_call" where
  "chat_route env st form p url_idx0 seed =
     (case get_runner_url st (payload_model p) url_idx0 seed of
        Inl e \<Rightarrow> Inl e
      | Inr (url, url_idx) \<Rightarrow>
          (let configs = DOCKER_MODEL_RUNNER_API_CONFIGS (config st);
               api_config = api_config_for configs (str_int url_idx) url;
               prefix_id = cfg_prefix_id api_config;
               p' = (if truthy_str prefix_id
                     then p \<lparr> payload_model := remove_all (the prefix_id @ ''.'') (payload_model p) \<rparr>
                     else p)
           in Inr \<lparr> post_url = url @ ''/api/chat'', post_payload = p',
                    post_stream = chat_stream form,
                    post_key = get_api_key env (str_int url_idx) url configs,
                    post_content_type = Some ''application/x-ndjson'' \<rparr>))"

subsection \<open>The transport client for POST requests\<close>

text \<open>
  What the upstream does with a POST: \<^verbatim>\<open>session.post\<close> raises, or it returns a
  response with a status and a body that \<^verbatim>\<open>r.json()\<close> either parses into an object
  (with or without the key \<^verbatim>\<open>error\<close>) or raises on.
\<close>

record json_object =
  error_key :: "string option"
  json_rest :: string

record post_reply =
  reply_status :: nat
  reply_json :: "json_object option"
  reply_headers :: "(string \<times> string) list"

datatype post_outcome = Post_raises | Post_reply post_reply

text \<open>How often \<^verbatim>\<open>response.close()\<close> and \<^verbatim>\<open>session.close()\<close> have been called.\<close>

record releases =
  response_close_calls :: nat
  session_close_calls :: nat

text \<open>\<^verbatim>\<open>cleanup_response\<close> (lines 91-98); an absent response or session is skipped.\<close>

definition cleanup_response :: "post_reply option \<Rightarrow> bool \<Rightarrow> releases \<Rightarrow> releases" where
  "cleanup_response response session rel =
     (let rel1 = (if response \<noteq> None
                  then rel \<lparr> response_close_calls := Suc (response_close_calls rel) \<rparr> else rel)
      in if session then rel1 \<lparr> session_close_calls := Suc (session_close_calls rel1) \<rparr> else rel1)"

text \<open>
  What \<^verbatim>\<open>send_post_request\<close> returns: the buffered JSON body, or a
  \<^verbatim>\<open>StreamingResponse\<close> with status and headers, whose background task is the call
  \<^verbatim>\<open>cleanup_response(response=r, session=session)\<close>, not yet run when the function
  returns.
\<close>

datatype proxied = JSON_body json_object | StreamingResponse nat "(string \<times> string) list"

text \<open>
  \<^verbatim>\<open>send_post_request\<close> (lines 101-184) with the releases it performs itself. The
  session is created first and its creation does not raise, so \<^verbatim>\<open>session\<close> is bound in
  the \<^verbatim>\<open>finally\<close> clause; \<^verbatim>\<open>r.ok\<close> is \<^verbatim>\<open>status < 400\<close>, and \<^verbatim>\<open>r.raise_for_status()\<close>
  raises exactly when it is false.
\<close>

definition send_post_request ::
  "bool option \<Rightarrow> string option \<Rightarrow> post_outcome \<Rightarrow> (error + proxied) \<times> releases" where
  "send_post_request stream content_type outcome =
     (let streaming = (stream = Some True);
          none = \<lparr> response_close_calls = 0, session_close_calls = 0 \<rparr>;
          finally = (\<lambda>r rel. if \<not> streaming then cleanup_response r True rel else rel)
      in case outcome of
           Post_raises \<Rightarrow>
             (Inl (HTTPException 500 (Exception_text ''Docker Model Runner: '')), finally None none)
         | Post_reply r \<Rightarrow>
             if \<not> reply_status r < 400 then
               (case reply_json r of
                  None \<Rightarrow>
                    (Inl (HTTPException (reply_status r) (Text ''Open WebUI: Server Connection Error'')),
                     finally (Some r) none)
                | Some res \<Rightarrow>
                    (let rel = cleanup_response (Some r) True none
                     in case error_key res of
                          Some err \<Rightarrow>
                            (Inl (HTTPException (reply_status r) (Text err)), finally (Some r) rel)
                        | None \<Rightarrow>
                            (Inl (HTTPException (reply_status r)
                                    (Exception_text ''Docker Model Runner: '')),
                             finally (Some r) rel)))
             else if streaming then
               (Inr (StreamingResponse (reply_status r)
                       (case content_type of
                          None \<Rightarrow> reply_headers r
                        | Some ct \<Rightarrow>
                            (if ct \<noteq> [] then AList.update ''Content-Type'' ct (reply_headers r)
                             else reply_headers r))),
                none)
             else
               (case reply_json r of
                  None \<Rightarrow>
                    (Inl (HTTPException (reply_status r) (Exception_text ''Docker Model Runner: '')),
                     finally (Some r) none)
                | Some res \<Rightarrow> (Inr (JSON_body res), finally (Some r) none)))"

text \<open>
  \<^verbatim>\<open>generate_chat_completion\<close> (lines 659-729): the POST requests it issues and the
  result of the endpoint. \<open>post\<close> is the upstream's answer to a POST of a payload to a
  URL.
\<close>

definition generate_chat_completion ::
  "collaborators \<Rightarrow> (string \<Rightarrow> payload \<Rightarrow> post_outcome) \<Rightarrow> app_state \<Rightarrow> raw_chat_form \<Rightarrow>
   int option \<Rightarrow> user \<Rightarrow> bool \<Rightarrow> nat \<Rightarrow> post_call list \<times> (error + proxied) \<times> releases" where
  "generate_chat_completion env post st form_data url_idx usr bypass_filter seed =
     (let none = \<lparr> response_close_calls = 0, session_close_calls = 0 \<rparr>
      in case chat_payload env form_data usr bypass_filter of
           Inl e \<Rightarrow> ([], Inl e, none)
         | Inr (form, p) \<Rightarrow>
             (case chat_route env st form p url_idx seed of
                Inl e \<Rightarrow> ([], Inl e, none)
              | Inr call \<Rightarrow>
                  ([call],
                   send_post_request (post_stream call) (post_content_type call)
                     (post (post_url call) (post_payload call)))))"

subsection \<open>The transport client for GET requests\<close>

text \<open>
  A JSON object a backend answers a GET with: the keys the router reads
  (\<^verbatim>\<open>models\<close>, \<^verbatim>\<open>version\<close>, \<^verbatim>\<open>error\<close>) and any others. An object is truthy in Python when
  it has at least one key.
\<close>

record response =
  models :: "model_entry list option"
  version :: "string option"
  resp_error :: "string option"
  resp_other :: "(string \<times> string) list"

definition truthy_response :: "response \<Rightarrow> bool" where
  "truthy_response r =
     (models r \<noteq> None \<or> version r \<noteq> None \<or> resp_error r \<noteq> None \<or> resp_other r \<noteq> [])"

text \<open>
  The network is a parameter: what a GET of a URL with a key and the headers of a user
  yields, \<open>None\<close> when anything goes wrong. \<^verbatim>\<open>send_get_request\<close> (lines 63-88) catches
  every exception and returns \<^verbatim>\<open>None\<close> then, so it raises nothing.
\<close>

type_synonym network = "string \<Rightarrow> string option \<Rightarrow> user option \<Rightarrow> response option"

definition send_get_request :: "network \<Rightarrow> string \<Rightarrow> string option \<Rightarrow> user option \<Rightarrow> response option" where
  "send_get_request net url key usr = net url key usr"

text \<open>
  An entry of \<^verbatim>\<open>request_tasks\<close>: a call of \<^verbatim>\<open>send_get_request\<close>, or
  \<^verbatim>\<open>asyncio.sleep(0, None)\<close>, which touches no network and yields \<^verbatim>\<open>None\<close>.
  \<^verbatim>\<open>asyncio.gather\<close> returns the results in the order of the tasks.
\<close>

datatype task = Get string "string option" "user option" | Sleep

fun await :: "network \<Rightarrow> task \<Rightarrow> response option" where
  "await net (Get url key usr) = send_get_request net url key usr"
| "await net Sleep = None"

definition gather :: "network \<Rightarrow> task list \<Rightarrow> response option list" where
  "gather net request_tasks = map (await net) request_tasks"

text \<open>
  The loop that builds \<^verbatim>\<open>request_tasks\<close>, the same in \<^verbatim>\<open>get_all_models\<close> (lines 312-332,
  path \<^verbatim>\<open>/api/tags\<close>) and \<^verbatim>\<open>get_loaded_models\<close> (lines 470-490, path \<^verbatim>\<open>/api/ps\<close>).
\<close>

definition request_task ::
  "(string \<times> api_config) list \<Rightarrow> string \<Rightarrow> user option \<Rightarrow> nat \<Rightarrow> string \<Rightarrow> task" where
  "request_task configs path usr idx url =
     (if map_of configs (str_nat idx) = None \<and> map_of configs url = None
      then Get (url @ path) None usr
      else (let api_config = api_config_for configs (str_nat idx) url;
                enable = cfg_enabled api_config;
                key = cfg_key api_config
            in if enable then Get (url @ path) key usr else Sleep))"

definition request_tasks ::
  "(string \<times> api_config) list \<Rightarrow> string list \<Rightarrow> string \<Rightarrow> user option \<Rightarrow> task list" where
  "request_tasks configs base_urls path usr =
     map (\<lambda>(idx, url). request_task configs path usr idx url) (enumerate 0 base_urls)"

subsection \<open>The catalog aggregator\<close>

text \<open>\<^verbatim>\<open>model["model"] = f"{prefix_id}.{model['model']}"\<close>; a missing key raises.\<close>

definition prefix_model :: "string \<Rightarrow> model_entry \<Rightarrow> error + model_entry" where
  "prefix_model prefix_id m =
     (case model m of
        None \<Rightarrow> Inl (KeyError ''model'')
      | Some n \<Rightarrow> Inr (m \<lparr> model := Some (prefix_id @ ''.'' @ n) \<rparr>))"

text \<open>The body of the loop over a response's models in \<^verbatim>\<open>get_all_models\<close> (lines 357-363).\<close>

definition transform_model :: "api_config \<Rightarrow> model_entry \<Rightarrow> error + model_entry" where
  "transform_model api_config m =
     (let the_connection_type =
            (case cfg_connection_type api_config of None \<Rightarrow> ''docker'' | Some c \<Rightarrow> c);
          prefix_id = cfg_prefix_id api_config;
          the_tags = (case cfg_tags api_config of None \<Rightarrow> [] | Some t \<Rightarrow> t)
      in case (if truthy_str prefix_id then prefix_model (the prefix_id) m else Inr m) of
           Inl e \<Rightarrow> Inl e
         | Inr m1 \<Rightarrow>
             (let m2 = (if the_tags \<noteq> [] then m1 \<lparr> tags := Some the_tags \<rparr> else m1)
              in Inr (if the_connection_type \<noteq> []
                      then m2 \<lparr> connection_type := Some the_connection_type \<rparr> else m2)))"

text \<open>
  \<^verbatim>\<open>list(filter(lambda model: model["model"] in model_ids, response["models"]))\<close>
  (lines 350-355); an entry without the key raises.
\<close>

definition filter_model_ids :: "string list \<Rightarrow> model_entry list \<Rightarrow> error + model_entry list" where
  "filter_model_ids model_ids ms =
     (if None \<in> set (map model ms) then Inl (KeyError ''model'')
      else Inr (filter (\<lambda>m. \<exists>n \<in> set model_ids. model m = Some n) ms))"

text \<open>
  The body of the loop over \<^verbatim>\<open>enumerate(responses)\<close> in \<^verbatim>\<open>get_all_models\<close> (lines 336-363).
  The index is in range of the URL list, which has as many elements as there are
  responses.
\<close>

definition transform_tags_response ::
  "(string \<times> api_config) list \<Rightarrow> string list \<Rightarrow> nat \<times> response option \<Rightarrow> error + response option" where
  "transform_tags_response configs base_urls ir =
     (case snd ir of
        None \<Rightarrow> Inr None
      | Some r \<Rightarrow>
          if \<not> truthy_response r then Inr (Some r)
          else
            (let url = base_urls ! fst ir;
                 api_config = api_config_for configs (str_nat (fst ir)) url;
                 model_ids = (case cfg_model_ids api_config of None \<Rightarrow> [] | Some ids \<Rightarrow> ids)
             in case (case models r of
                        None \<Rightarrow> Inr None
                      | Some ms \<Rightarrow>
                          (case (if model_ids \<noteq> [] then filter_model_ids model_ids ms else Inr ms) of
                             Inl e \<Rightarrow> Inl e
                           | Inr ms1 \<Rightarrow>
                               (case map_raise (transform_model api_config) ms1 of
                                  Inl e \<Rightarrow> Inl e
                                | Inr ms2 \<Rightarrow> Inr (Some ms2)))) of
                  Inl e \<Rightarrow> Inl e
                | Inr new_models \<Rightarrow> Inr (Some (r \<lparr> models := new_models \<rparr>))))"

text \<open>The same loop in \<^verbatim>\<open>get_loaded_models\<close> (lines 494-506): only the prefix is applied.\<close>

definition transform_ps_response ::
  "(string \<times> api_config) list \<Rightarrow> string list \<Rightarrow> nat \<times> response option \<Rightarrow> error + response option" where
  "transform_ps_response configs base_urls ir =
     (case snd ir of
        None \<Rightarrow> Inr None
      | Some r \<Rightarrow>
          if \<not> truthy_response r then Inr (Some r)
          else
            (let url = base_urls ! fst ir;
                 api_config = api_config_for configs (str_nat (fst ir)) url;
                 prefix_id = cfg_prefix_id api_config
             in case models r of
                  None \<Rightarrow> Inr (Some r)
                | Some ms \<Rightarrow>
                    (case map_raise (\<lambda>m. if truthy_str prefix_id then prefix_model (the prefix_id) m
                                          else Inr m) ms of
                       Inl e \<Rightarrow> Inl e
                     | Inr ms1 \<Rightarrow> Inr (Some (r \<lparr> models := Some ms1 \<rparr>)))))"

text \<open>\<^verbatim>\<open>lambda response: response.get("models", []) if response else None\<close>.\<close>

definition listing :: "response option \<Rightarrow> model_entry list option" where
  "listing response =
     (case response of
        None \<Rightarrow> None
      | Some r \<Rightarrow> if truthy_response r
                  then Some (case models r of None \<Rightarrow> [] | Some ms \<Rightarrow> ms)
                  else None)"

definition enabled_api :: "config \<Rightarrow> bool" where
  "enabled_api c = (ENABLE_DOCKER_MODEL_RUNNER_API c = Some True)"

text \<open>
  \<^verbatim>\<open>get_loaded_models\<close> (lines 466-519): the tasks it issued and the merged listing of
  loaded models.
\<close>

definition get_loaded_models ::
  "network \<Rightarrow> config \<Rightarrow> user option \<Rightarrow> task list \<times> (error + model_entry list)" where
  "get_loaded_models net c usr =
     (if enabled_api c then
        (let configs = DOCKER_MODEL_RUNNER_API_CONFIGS c;
             base_urls = DOCKER_MODEL_RUNNER_BASE_URLS c;
             tasks = request_tasks configs base_urls ''/api/ps'' usr;
             responses = gather net tasks
         in case map_raise (transform_ps_response configs base_urls) (enumerate 0 responses) of
              Inl e \<Rightarrow> (tasks, Inl e)
            | Inr rs \<Rightarrow> (tasks, Inr (merge_models_lists (map listing rs))))
      else ([], Inr []))"

text \<open>A dictionary built from key/value pairs in order: a repeated key keeps its place.\<close>

definition dict_of :: "('k \<times> 'v) list \<Rightarrow> ('k \<times> 'v) list" where
  "dict_of kvs = foldl (\<lambda>d kv. AList.update (fst kv) (snd kv) d) [] kvs"

text \<open>
  \<^verbatim>\<open>{m["model"]: m["expires_at"] for m in loaded_models["models"] if "expires_at" in m}\<close>
  (lines 376-380).
\<close>

definition expires_map :: "model_entry list \<Rightarrow> error + (string \<times> expiry) list" where
  "expires_map loaded =
     (case map_raise (\<lambda>m. case model m of
                              None \<Rightarrow> Inl (KeyError ''model'')
                            | Some k \<Rightarrow> Inr (k, the (expires_at m)))
             (filter (\<lambda>m. expires_at m \<noteq> None) loaded) of
        Inl e \<Rightarrow> Inl e
      | Inr kvs \<Rightarrow> Inr (dict_of kvs))"

text \<open>
  The loop of lines 382-385 inside the \<^verbatim>\<open>try\<close>: an exception (a missing key, a value
  that is not an ISO string) ends the loop and is swallowed, the entries updated before
  stay updated.
\<close>

fun annotate_expiry ::
  "(string \<Rightarrow> int option) \<Rightarrow> (string \<times> expiry) list \<Rightarrow> model_entry list \<Rightarrow> model_entry list" where
  "annotate_expiry ts em [] = []"
| "annotate_expiry ts em (m # ms) =
     (case model m of
        None \<Rightarrow> m # ms
      | Some k \<Rightarrow>
          (case map_of em k of
             None \<Rightarrow> m # annotate_expiry ts em ms
           | Some (Epoch n) \<Rightarrow> m # ms
           | Some (Iso s) \<Rightarrow>
               (case ts s of
                  None \<Rightarrow> m # ms
                | Some t \<Rightarrow> m \<lparr> expires_at := Some (Epoch t) \<rparr> # annotate_expiry ts em ms)))"

text \<open>\<^verbatim>\<open>{model["model"]: model for model in models["models"]}\<close> (lines 392-394).\<close>

definition models_index :: "model_entry list \<Rightarrow> error + (string \<times> model_entry) list" where
  "models_index ms =
     (case map_raise (\<lambda>m. case model m of
                              None \<Rightarrow> Inl (KeyError ''model'')
                            | Some k \<Rightarrow> Inr (k, m)) ms of
        Inl e \<Rightarrow> Inl e
      | Inr kvs \<Rightarrow> Inr (dict_of kvs))"

text \<open>
  \<^verbatim>\<open>get_all_models\<close> (lines 309-395), the body that runs on a cache miss: the tasks
  issued for \<^verbatim>\<open>/api/tags\<close>, the tasks issued for \<^verbatim>\<open>/api/ps\<close>, and either the exception
  that escapes or the catalog with the new application state.
\<close>

definition get_all_models ::
  "collaborators \<Rightarrow> network \<Rightarrow> app_state \<Rightarrow> user option \<Rightarrow>
   task list \<times> task list \<times> (error + (model_entry list \<times> app_state))" where
  "get_all_models env net st usr =
     (let c = config st;
          finish = (\<lambda>ms. case models_index ms of
                            Inl e \<Rightarrow> Inl e
                          | Inr index \<Rightarrow> Inr (ms, st \<lparr> DOCKER_MODEL_RUNNER_MODELS := index \<rparr>))
      in if enabled_api c then
           (let configs = DOCKER_MODEL_RUNNER_API_CONFIGS c;
                base_urls = DOCKER_MODEL_RUNNER_BASE_URLS c;
                tasks = request_tasks configs base_urls ''/api/tags'' usr;
                responses = gather net tasks
            in case map_raise (transform_tags_response configs base_urls) (enumerate 0 responses) of
                 Inl e \<Rightarrow> (tasks, [], Inl e)
               | Inr rs \<Rightarrow>
                   (let merged = merge_models_lists (map listing rs);
                        loaded = get_loaded_models net c usr;
                        annotated =
                          (case snd loaded of
                             Inl e \<Rightarrow> merged
                           | Inr loaded_models \<Rightarrow>
                               (case expires_map loaded_models of
                                  Inl e \<Rightarrow> merged
                                | Inr em \<Rightarrow> annotate_expiry (iso_timestamp env) em merged))
                    in (tasks, fst loaded, finish annotated)))
         else ([], [], finish []))"

subsection \<open>The version reconciler\<close>

text \<open>
  \<^verbatim>\<open>re.sub(r"^v|-.*", "", s)\<close>: a \<^verbatim>\<open>v\<close> at the very start is removed, and every \<^verbatim>\<open>-\<close>
  is removed together with what follows it up to the end of its line (\<^verbatim>\<open>.\<close> does not
  match a newline). \<open>in_match\<close> says that the scan is inside such a match.
\<close>

fun sub_dash :: "bool \<Rightarrow> string \<Rightarrow> string" where
  "sub_dash in_match [] = []"
| "sub_dash in_match (c # cs) =
     (if in_match then (if c = CHR 0x0A then c # sub_dash False cs else sub_dash True cs)
      else if c = CHR ''-'' then sub_dash True cs
      else c # sub_dash False cs)"

definition re_sub_version :: "string \<Rightarrow> string" where
  "re_sub_version s =
     (case s of
        [] \<Rightarrow> []
      | c # cs \<Rightarrow> if c = CHR ''v'' then sub_dash False cs else sub_dash False s)"

text \<open>\<^verbatim>\<open>s.split(sep)\<close> for a one-character separator: at least one piece.\<close>

fun split_on :: "char \<Rightarrow> string \<Rightarrow> string list" where
  "split_on sep [] = [[]]"
| "split_on sep (c # cs) =
     (if c = sep then [] # split_on sep cs
      else (case split_on sep cs of [] \<Rightarrow> [[c]] | w # ws \<Rightarrow> (c # w) # ws))"

text \<open>
  \<^verbatim>\<open>int(s)\<close> on a string of ASCII characters: the whitespace characters tab, line
  feed, vertical tab, form feed, carriage return and space are dropped at both ends,
  one sign is allowed, then come decimal digits, where single underscores may stand
  between two digits; anything else raises \<^verbatim>\<open>ValueError\<close> (\<open>None\<close>), and so does a
  numeral of more than 4300 digits (the default of \<^verbatim>\<open>sys.int_max_str_digits\<close>;
  underscores and the sign do not count). Characters are bytes here, so the digits and
  spaces of other scripts are not covered.
\<close>

definition is_space :: "char \<Rightarrow> bool" where
  "is_space c = (c \<in> set [CHR 0x09, CHR 0x0A, CHR 0x0B, CHR 0x0C, CHR 0x0D, CHR 0x20])"

definition py_strip :: "string \<Rightarrow> string" where
  "py_strip s = rev (dropWhile is_space (rev (dropWhile is_space s)))"

fun more_digits :: "nat \<Rightarrow> string \<Rightarrow> nat option" where
  "more_digits acc [] = Some acc"
| "more_digits acc [c] =
     (case digit_val c of None \<Rightarrow> None | Some d \<Rightarrow> Some (10 * acc + d))"
| "more_digits acc (c # c' # cs) =
     (case digit_val c of
        Some d \<Rightarrow> more_digits (10 * acc + d) (c' # cs)
      | None \<Rightarrow>
          if c = CHR ''_'' then
            (case digit_val c' of None \<Rightarrow> None | Some d \<Rightarrow> more_digits (10 * acc + d) cs)
          else None)"

definition py_nat :: "string \<Rightarrow> nat option" where
  "py_nat s =
     (if length (filter (\<lambda>c. c \<noteq> CHR ''_'') s) > 4300 then None
      else (case s of
              [] \<Rightarrow> None
            | c # cs \<Rightarrow> (case digit_val c of None \<Rightarrow> None | Some d \<Rightarrow> more_digits d cs)))"

definition py_int :: "string \<Rightarrow> int option" where
  "py_int s =
     (case py_strip s of
        [] \<Rightarrow> None
      | c # cs \<Rightarrow>
          if c = CHR ''-'' then map_option (\<lambda>n. - int n) (py_nat cs)
          else if c = CHR ''+'' then map_option int (py_nat cs)
          else map_option int (py_nat (c # cs)))"

text \<open>
  The key of \<^verbatim>\<open>min\<close> in \<^verbatim>\<open>get_versions\<close> (lines 549-551):
  \<^verbatim>\<open>tuple(map(int, re.sub(r"^v|-.*", "", x["version"]).split(".")))\<close>. Tuples of integers
  compare lexicographically, a proper prefix being smaller; that is the order of
  \<open>int list\<close>.
\<close>

definition version_key :: "string \<Rightarrow> error + int list" where
  "version_key v =
     (case those (map py_int (split_on CHR ''.'' (re_sub_version v))) of
        None \<Rightarrow> Inl ValueError
      | Some ks \<Rightarrow> Inr ks)"

text \<open>
  \<^verbatim>\<open>min(xs, key=...)\<close> once the keys are computed: the first element whose key is not
  above any other's.
\<close>

fun min_by_key :: "int list \<times> 'a \<Rightarrow> (int list \<times> 'a) list \<Rightarrow> int list \<times> 'a" where
  "min_by_key best [] = best"
| "min_by_key best (x # xs) = min_by_key (if fst x < fst best then x else best) xs"

text \<open>
  The loop of lines 529-541: unlike the catalog loops, a disabled backend gets no task
  at all, and the key is always read from the configuration.
\<close>

definition version_tasks :: "(string \<times> api_config) list \<Rightarrow> string list \<Rightarrow> task list" where
  "version_tasks configs base_urls =
     concat (map (\<lambda>(idx, url).
                    (let api_config = api_config_for configs (str_nat idx) url;
                         enable = cfg_enabled api_config;
                         key = cfg_key api_config
                     in if enable then [Get (url @ ''/api/version'') key None] else []))
                 (enumerate 0 base_urls))"

text \<open>\<^verbatim>\<open>list(filter(lambda x: x is not None, responses))\<close>.\<close>

definition not_None :: "'a option list \<Rightarrow> 'a list" where
  "not_None xs = concat (map (\<lambda>x. case x of None \<Rightarrow> [] | Some r \<Rightarrow> [r]) xs)"

text \<open>
  What the synchronous \<^verbatim>\<open>requests.request\<close> of the pinned branch yields: it raises, or
  it returns a status and a body that \<^verbatim>\<open>r.json()\<close> parses or raises on.
\<close>

datatype sync_outcome = Request_raises | Reply nat "response option"

datatype version_result = Version string | Version_False | Version_raw response

text \<open>
  \<^verbatim>\<open>lowest_version["version"]\<close> with its key, or the exception that computing the key
  raises.
\<close>

definition keyed_version :: "response \<Rightarrow> error + int list \<times> string" where
  "keyed_version x =
     (case version x of
        None \<Rightarrow> Inl (KeyError ''version'')
      | Some v \<Rightarrow> (case version_key v of Inl e \<Rightarrow> Inl e | Inr k \<Rightarrow> Inr (k, v)))"

text \<open>
  \<^verbatim>\<open>get_versions\<close> (lines 524-582). In the pinned branch a \<^verbatim>\<open>requests\<close> response is
  falsy when its status is an error status, so the status reported then is 500.
\<close>

definition get_versions ::
  "network \<Rightarrow> (string \<Rightarrow> sync_outcome) \<Rightarrow> config \<Rightarrow> int option \<Rightarrow>
   task list \<times> (error + version_result)" where
  "get_versions net requests_get c url_idx =
     (if enabled_api c then
        (case url_idx of
           None \<Rightarrow>
             (let tasks = version_tasks (DOCKER_MODEL_RUNNER_API_CONFIGS c)
                            (DOCKER_MODEL_RUNNER_BASE_URLS c);
                  responses = not_None (gather net tasks)
              in if length responses > 0 then
                   (case map_raise keyed_version responses of
                      Inl e \<Rightarrow> (tasks, Inl e)
                    | Inr [] \<Rightarrow> (tasks, Inl ValueError)
                    | Inr (kv # kvs) \<Rightarrow> (tasks, Inr (Version (snd (min_by_key kv kvs)))))
                 else (tasks, Inl (HTTPException 500 (Text ''Docker Model Runner not found''))))
         | Some i \<Rightarrow>
             (case list_index (DOCKER_MODEL_RUNNER_BASE_URLS c) i of
                Inl e \<Rightarrow> ([], Inl e)
              | Inr url \<Rightarrow>
                  (case requests_get (url @ ''/api/version'') of
                     Request_raises \<Rightarrow>
                       ([], Inl (HTTPException 500 (Text ''Open WebUI: Server Connection Error'')))
                   | Reply status body \<Rightarrow>
                       if 400 \<le> status \<and> status < 600 then
                         (case body of
                            None \<Rightarrow>
                              ([], Inl (HTTPException 500 (Exception_text ''Docker Model Runner: '')))
                          | Some res \<Rightarrow>
                              (case resp_error res of
                                 Some err \<Rightarrow>
                                   ([], Inl (HTTPException 500 (Text (''Docker Model Runner: '' @ err))))
                               | None \<Rightarrow>
                                   ([], Inl (HTTPException 500
                                              (Text ''Open WebUI: Server Connection Error'')))))
                       else
                         (case body of
                            None \<Rightarrow>
                              ([], Inl (HTTPException status (Exception_text ''Docker Model Runner: '')))
                          | Some res \<Rightarrow> ([], Inr (Version_raw res))))))
      else ([], Inr Version_False))"

subsection \<open>Vocabulary of the statements\<close>

text \<open>
  The responses of the version query that are not \<^verbatim>\<open>None\<close>; the configuration of
  backend \<open>idx\<close>; the name a backend's model has in the catalog; whether a backend's
  allow-list lets a model through; a response all of whose models carry a name; and the
  responses of the catalog refresh, one slot per backend.
\<close>

definition version_responses :: "network \<Rightarrow> config \<Rightarrow> response list" where
  "version_responses net c =
     not_None (gather net (version_tasks (DOCKER_MODEL_RUNNER_API_CONFIGS c)
                             (DOCKER_MODEL_RUNNER_BASE_URLS c)))"






definition catalog_name :: "api_config \<Rightarrow> string \<Rightarrow> string" where
  "catalog_name a n = (if truthy_str (cfg_prefix_id a) then the (cfg_prefix_id a) @ ''.'' @ n else n)"

definition allowed :: "api_config \<Rightarrow> string \<Rightarrow> bool" where
  "allowed a n = (case cfg_model_ids a of None \<Rightarrow> True | Some ids \<Rightarrow> ids = [] \<or> n \<in> set ids)"

definition backend_config :: "config \<Rightarrow> nat \<Rightarrow> api_config" where
  "backend_config c idx =
     api_config_for (DOCKER_MODEL_RUNNER_API_CONFIGS c) (str_nat idx) (DOCKER_MODEL_RUNNER_BASE_URLS c ! idx)"

definition named :: "response option \<Rightarrow> bool" where
  "named response =
     (case response of
        None \<Rightarrow> True
      | Some r \<Rightarrow> (case models r of None \<Rightarrow> True | Some ms \<Rightarrow> None \<notin> set (map model ms)))"

definition tags_responses :: "network \<Rightarrow> config \<Rightarrow> user option \<Rightarrow> response option list" where
  "tags_responses net c usr =
     gather net (request_tasks (DOCKER_MODEL_RUNNER_API_CONFIGS c)
                   (DOCKER_MODEL_RUNNER_BASE_URLS c) ''/api/tags'' usr)"

text \<open>
  The listing that backend \<open>idx\<close> contributes to the merge when every entry of its
  response carries a name: the allowed entries, transformed; and the list of these
  listings, one slot per backend.
\<close>

definition shaped_listing :: "config \<Rightarrow> nat \<Rightarrow> response option \<Rightarrow> model_entry list option" where
  "shaped_listing c idx response =
     (case response of
        None \<Rightarrow> None
      | Some r \<Rightarrow>
          if \<not> truthy_response r then None
          else Some (case models r of
                       None \<Rightarrow> []
                     | Some ms \<Rightarrow>
                         map (\<lambda>m. projr (transform_model (backend_config c idx) m))
                           (filter (\<lambda>m. \<exists>n. model m = Some n \<and> allowed (backend_config c idx) n) ms)))"

definition tags_listings :: "network \<Rightarrow> config \<Rightarrow> user option \<Rightarrow> model_entry list option list" where
  "tags_listings net c usr =
     map (\<lambda>ir. shaped_listing c (fst ir) (snd ir)) (enumerate 0 (tags_responses net c usr))"

subsection \<open>Example registries\<close>

text \<open>Three enabled backends reporting the versions of the spec's example.\<close>

definition reg3 :: config where
  "reg3 = \<lparr> ENABLE_DOCKER_MODEL_RUNNER_API = Some True,
            DOCKER_MODEL_RUNNER_BASE_URLS = [''http://a'', ''http://b'', ''http://c''],
            DOCKER_MODEL_RUNNER_API_CONFIGS = [] \<rparr>"

definition ver :: "string \<Rightarrow> response" where
  "ver v = \<lparr> models = None, version = Some v, resp_error = None, resp_other = [] \<rparr>"

definition net3 :: network where
  "net3 url key usr =
     (if url = ''http://a/api/version'' then Some (ver ''v1.2.0'')
      else if url = ''http://b/api/version'' then Some (ver ''v1.10.0'')
      else if url = ''http://c/api/version'' then Some (ver ''v1.2.5'')
      else None)"

text \<open>
  The same registry with the runner API switched off; a registry of one backend whose
  version answer is \<^verbatim>\<open>latest\<close>; a network on which nothing answers; and a
  \<^verbatim>\<open>requests\<close> library that is never reached by an unpinned query.
\<close>

definition reg3_off :: config where
  "reg3_off = \<lparr> ENABLE_DOCKER_MODEL_RUNNER_API = Some False,
                DOCKER_MODEL_RUNNER_BASE_URLS = [''http://a'', ''http://b'', ''http://c''],
                DOCKER_MODEL_RUNNER_API_CONFIGS = [] \<rparr>"

definition reg1 :: config where
  "reg1 = \<lparr> ENABLE_DOCKER_MODEL_RUNNER_API = Some True,
            DOCKER_MODEL_RUNNER_BASE_URLS = [''http://a''],
            DOCKER_MODEL_RUNNER_API_CONFIGS = [] \<rparr>"

definition net_latest :: network where
  "net_latest url key usr = (if url = ''http://a/api/version'' then Some (ver ''latest'') else None)"

definition unreachable :: network where
  "unreachable url key usr = None"

definition no_requests :: "string \<Rightarrow> sync_outcome" where
  "no_requests url = Request_raises"

text \<open>Three backends whose versions carry pre-release suffixes, two of them with equal components.\<close>

definition net3_rc :: network where
  "net3_rc url key usr =
     (if url = ''http://a/api/version'' then Some (ver ''v1.10.0-rc1'')
      else if url = ''http://b/api/version'' then Some (ver ''1.2.0-beta.2'')
      else if url = ''http://c/api/version'' then Some (ver ''v1.2.0'')
      else None)"

text \<open>Collaborators that know no model and shape nothing, an administrator, and chat requests.\<close>

definition env0 :: collaborators where
  "env0 = \<lparr> BYPASS_MODEL_ACCESS_CONTROL = False,
            get_model_by_id = (\<lambda>model_id. None),
            has_access = (\<lambda>uid ac. False),
            apply_model_params_to_body_ollama = (\<lambda>ps p. p),
            apply_system_prompt_to_body = (\<lambda>system p metadata usr. p),
            urlparse_base = (\<lambda>url. url),
            iso_timestamp = (\<lambda>s. None) \<rparr>"

definition admin :: user where
  "admin = \<lparr> user_id = ''u1'', user_role = ''admin'', user_name = ''Ada'', user_email = ''ada@example.org'' \<rparr>"

definition chat_for :: "string \<Rightarrow> raw_message list \<Rightarrow> raw_chat_form" where
  "chat_for name msgs = \<lparr> raw_model = Val name, raw_messages = Val msgs, raw_stream = Absent,
                           raw_metadata = None, raw_extra = [] \<rparr>"

definition tool_call_message :: raw_message where
  "tool_call_message = \<lparr> raw_role = Val ''assistant'', raw_content = Null,
                          raw_tool_calls = Val [''get_weather''], raw_images = Absent \<rparr>"

section \<open>Properties\<close>

subsection \<open>Decimal numerals\<close>

lemma digit_val_digit_char: "d < 10 \<Longrightarrow> digit_val (digit_char d) = Some d"
proof -
  assume "d < 10"
  then have "d \<in> {0,1,2,3,4,5,6,7,8,9}" by auto
  then show ?thesis
    by (auto simp: digit_val_def digit_char_def upt_conv_Cons)
qed

lemma digits_val_append:
  "digits_val acc (xs @ ys) = (case digits_val acc xs of None \<Rightarrow> None | Some a \<Rightarrow> digits_val a ys)"
  by (induction xs arbitrary: acc) (auto split: option.splits)

lemma digits_val_str_nat: "digits_val 0 (str_nat n) = Some n"
proof (induction n rule: str_nat.induct)
  case (1 n)
  show ?case
  proof (cases "n < 10")
    case True
    then show ?thesis
      by (subst str_nat.simps) (simp add: digit_val_digit_char)
  next
    case False
    with 1 have "digits_val 0 (str_nat (n div 10)) = Some (n div 10)" by simp
    with False show ?thesis
      by (subst str_nat.simps) (simp add: digits_val_append digit_val_digit_char)
  qed
qed

lemma str_nat_nonempty: "str_nat n \<noteq> []"
  by (subst str_nat.simps) simp

lemma decimal_str_nat: "decimal (str_nat n) = Some n"
  by (simp add: decimal_def str_nat_nonempty digits_val_str_nat)

lemma str_nat_inj: "str_nat m = str_nat n \<Longrightarrow> m = n"
  by (metis decimal_str_nat option.inject)

subsection \<open>Configuration update\<close>

lemma update_config_configs:
  "DOCKER_MODEL_RUNNER_API_CONFIGS (update_config c f) =
     filter (\<lambda>(key, value). key \<in> str_nat ` {0 ..< length (form_DOCKER_MODEL_RUNNER_BASE_URLS f)})
            (form_DOCKER_MODEL_RUNNER_API_CONFIGS f)"
  by (simp add: update_config_def Let_def)

text \<open>
  C8. A configuration update with a URL list of length \<open>N\<close> is total (the model of
  \<^verbatim>\<open>update_config\<close> has no error branch) and retains exactly the submitted
  entries whose key is \<^verbatim>\<open>str(i)\<close> for some \<open>i < N\<close>, in their order and with their
  values; every retained key reads back as a decimal index below \<open>N\<close>, and every other
  entry (a key beyond the new length, or any other string) is dropped.
\<close>

theorem update_config_prunes_stale_keys:
  "DOCKER_MODEL_RUNNER_API_CONFIGS (update_config c f) =
     filter (\<lambda>(k, v). \<exists>i < length (form_DOCKER_MODEL_RUNNER_BASE_URLS f). k = str_nat i)
            (form_DOCKER_MODEL_RUNNER_API_CONFIGS f)
   \<and> (\<forall>k v. (k, v) \<in> set (DOCKER_MODEL_RUNNER_API_CONFIGS (update_config c f)) \<longleftrightarrow>
         (k, v) \<in> set (form_DOCKER_MODEL_RUNNER_API_CONFIGS f)
         \<and> (\<exists>i < length (form_DOCKER_MODEL_RUNNER_BASE_URLS f). decimal k = Some i \<and> k = str_nat i))
   \<and> DOCKER_MODEL_RUNNER_BASE_URLS (update_config c f) = form_DOCKER_MODEL_RUNNER_BASE_URLS f"
proof -
  let ?N = "length (form_DOCKER_MODEL_RUNNER_BASE_URLS f)"
  have img: "\<And>k. k \<in> str_nat ` {0 ..< ?N} \<longleftrightarrow> (\<exists>i < ?N. k = str_nat i)"
    by auto
  have k: "DOCKER_MODEL_RUNNER_API_CONFIGS (update_config c f) =
      filter (\<lambda>(k, v). \<exists>i < ?N. k = str_nat i) (form_DOCKER_MODEL_RUNNER_API_CONFIGS f)"
    unfolding update_config_configs by (simp add: img)
  have m: "\<forall>k v. (k, v) \<in> set (DOCKER_MODEL_RUNNER_API_CONFIGS (update_config c f)) \<longleftrightarrow>
         (k, v) \<in> set (form_DOCKER_MODEL_RUNNER_API_CONFIGS f)
         \<and> (\<exists>i < ?N. decimal k = Some i \<and> k = str_nat i)"
    unfolding k by (auto simp: decimal_str_nat)
  have u: "DOCKER_MODEL_RUNNER_BASE_URLS (update_config c f) = form_DOCKER_MODEL_RUNNER_BASE_URLS f"
    by (simp add: update_config_def Let_def)
  from k m u show ?thesis by blast
qed


theorem update_config_prunes_stale_keys_witness:
  "DOCKER_MODEL_RUNNER_API_CONFIGS (update_config
     \<lparr> ENABLE_DOCKER_MODEL_RUNNER_API = None, DOCKER_MODEL_RUNNER_BASE_URLS = [],
       DOCKER_MODEL_RUNNER_API_CONFIGS = [] \<rparr>
     \<lparr> form_ENABLE_DOCKER_MODEL_RUNNER_API = Some True,
       form_DOCKER_MODEL_RUNNER_BASE_URLS = [''http://a'', ''http://b''],
       form_DOCKER_MODEL_RUNNER_API_CONFIGS =
         [(''0'', empty_api_config), (''2'', empty_api_config), (''http://a'', empty_api_config),
          (''01'', empty_api_config), (''1'', empty_api_config)] \<rparr>)
   = [(''0'', empty_api_config), (''1'', empty_api_config)]"
proof -
  let ?c = "\<lparr> ENABLE_DOCKER_MODEL_RUNNER_API = None, DOCKER_MODEL_RUNNER_BASE_URLS = [],
       DOCKER_MODEL_RUNNER_API_CONFIGS = [] \<rparr>"
  let ?f = "\<lparr> form_ENABLE_DOCKER_MODEL_RUNNER_API = Some True,
       form_DOCKER_MODEL_RUNNER_BASE_URLS = [''http://a'', ''http://b''],
       form_DOCKER_MODEL_RUNNER_API_CONFIGS =
         [(''0'', empty_api_config), (''2'', empty_api_config), (''http://a'', empty_api_config),
          (''01'', empty_api_config), (''1'', empty_api_config)] \<rparr>"
  have iff: "\<And>n k. (\<exists>i<n. k = str_nat i) \<longleftrightarrow> k \<in> set (map str_nat [0 ..< n])"
    by auto
  have len: "length (form_DOCKER_MODEL_RUNNER_BASE_URLS ?f) = 2"
    by simp
  have keys: "filter (\<lambda>(k, v). \<exists>i < length (form_DOCKER_MODEL_RUNNER_BASE_URLS ?f). k = str_nat i)
                (form_DOCKER_MODEL_RUNNER_API_CONFIGS ?f)
              = filter (\<lambda>(k, v). k \<in> set (map str_nat [0 ..< 2])) (form_DOCKER_MODEL_RUNNER_API_CONFIGS ?f)"
    unfolding len iff ..
  have ev: "filter (\<lambda>(k, v). k \<in> set (map str_nat [0 ..< 2])) (form_DOCKER_MODEL_RUNNER_API_CONFIGS ?f)
            = [(''0'', empty_api_config), (''1'', empty_api_config)]"
    by code_simp
  from update_config_prunes_stale_keys [of ?c ?f] keys ev show ?thesis
    by (elim conjE) (erule trans, rule trans)
qed

subsection \<open>Merging the backend listings\<close>

lemma foldl_merge_model: "foldl (merge_model idx) acc ms = foldl merge_step acc (map (Pair idx) ms)"
  by (induction ms arbitrary: acc) (auto simp: merge_step_def)

lemma merge_from_foldl: "merge_from idx acc ls = foldl merge_step acc (occurrences_from idx ls)"
  by (induction ls arbitrary: idx acc) (auto simp: foldl_merge_model split: option.splits)

lemma find_append:
  "find P (xs @ ys) = (case find P xs of None \<Rightarrow> find P ys | Some x \<Rightarrow> Some x)"
  by (induction xs) auto

lemma merge_step_unnamed: "model (snd p) = None \<Longrightarrow> merge_step acc p = acc"
  by (simp add: merge_step_def merge_model_def)

lemma merge_step_new:
  "model (snd p) = Some k \<Longrightarrow> map_of acc k = None \<Longrightarrow>
   merge_step acc p = acc @ [(k, (snd p) \<lparr> urls := [fst p] \<rparr>)]"
  by (simp add: merge_step_def merge_model_def)

lemma merge_step_seen:
  "model (snd p) = Some k \<Longrightarrow> map_of acc k = Some r \<Longrightarrow>
   merge_step acc p = AList.update k (r \<lparr> urls := urls r @ [fst p] \<rparr>) acc"
  by (simp add: merge_step_def merge_model_def)

lemma merge_inv:
  "distinct (map fst (foldl merge_step [] ps)) \<and>
   (\<forall>name. map_of (foldl merge_step [] ps) name =
      (case first_seen name ps of None \<Rightarrow> None
       | Some p \<Rightarrow> Some ((snd p) \<lparr> urls := served_by name ps \<rparr>)))"
proof (induction ps rule: rev_induct)
  case Nil
  show ?case by (simp add: first_seen_def)
next
  case (snoc p ps)
  define acc where "acc = foldl merge_step [] ps"
  have fold: "foldl merge_step [] (ps @ [p]) = merge_step acc p" by (simp add: acc_def)
  from snoc have d: "distinct (map fst acc)" 
    and m: "\<And>name. map_of acc name =
      (case first_seen name ps of None \<Rightarrow> None
       | Some p \<Rightarrow> Some ((snd p) \<lparr> urls := served_by name ps \<rparr>))" by (auto simp: acc_def)
  show ?case
  proof (cases "model (snd p)")
    case None
    then have "\<And>name. \<not> exposes name p" by (simp add: exposes_def)
    then show ?thesis unfolding fold merge_step_unnamed[OF None] using d m
      by (simp add: first_seen_def served_by_def find_append split: option.splits)
  next
    case (Some k)
    then have ex: "\<And>name. exposes name p \<longleftrightarrow> name = k" by (auto simp: exposes_def)
    show ?thesis
    proof (cases "map_of acc k")
      case None
      then have nk: "k \<notin> fst ` set acc" by (simp add: map_of_eq_None_iff)
      from None m[of k] have fs: "first_seen k ps = None" by (simp split: option.splits)
      then have sb: "served_by k ps = []"
        by (auto simp: first_seen_def served_by_def find_None_iff filter_empty_conv)
      show ?thesis unfolding fold merge_step_new[OF Some None] using d nk m fs sb ex
        by (auto simp: first_seen_def served_by_def find_append map_add_def split: option.splits)
    next
      case r: (Some r)
      from r m[of k] obtain q where fs: "first_seen k ps = Some q"
        and rq: "r = (snd q) \<lparr> urls := served_by k ps \<rparr>" by (auto split: option.splits)
      show ?thesis unfolding fold merge_step_seen[OF Some r] using d m fs rq ex
        by (auto simp: first_seen_def served_by_def find_append update_conv' distinct_update split: option.splits)
    qed
  qed
qed


lemma merge_from_occurrences: "merge_from 0 [] ls = foldl merge_step [] (occurrences ls)"
  by (simp add: merge_from_foldl occurrences_def)

lemma first_seen_Some:
  "first_seen k ps = Some q \<Longrightarrow> q \<in> set ps \<and> model (snd q) = Some k"
  by (auto simp: first_seen_def find_Some_iff exposes_def)

lemma first_seen_None: "first_seen k ps = None \<longleftrightarrow> (\<forall>p \<in> set ps. \<not> exposes k p)"
  by (auto simp: first_seen_def find_None_iff)

lemma merged_entry:
  "(k, r) \<in> set (merge_from 0 [] ls) \<longleftrightarrow>
     (\<exists>q. first_seen k (occurrences ls) = Some q \<and> r = (snd q) \<lparr> urls := served_by k (occurrences ls) \<rparr>)"
proof -
  define acc where "acc = foldl merge_step [] (occurrences ls)"
  from merge_inv [of "occurrences ls"] have d: "distinct (map fst acc)"
    and m: "map_of acc k = (case first_seen k (occurrences ls) of None \<Rightarrow> None
       | Some p \<Rightarrow> Some ((snd p) \<lparr> urls := served_by k (occurrences ls) \<rparr>))"
    unfolding acc_def by blast+
  have "(k, r) \<in> set acc \<longleftrightarrow> map_of acc k = Some r" using d by simp
  also have "\<dots> \<longleftrightarrow> (\<exists>q. first_seen k (occurrences ls) = Some q \<and> r = (snd q) \<lparr> urls := served_by k (occurrences ls) \<rparr>)"
    unfolding m by (cases "first_seen k (occurrences ls)") auto
  finally show ?thesis unfolding merge_from_occurrences acc_def .
qed

lemma merged_entry_model: "(k, r) \<in> set (merge_from 0 [] ls) \<Longrightarrow> model r = Some k"
proof -
  assume "(k, r) \<in> set (merge_from 0 [] ls)"
  then obtain q where q: "first_seen k (occurrences ls) = Some q"
    and r: "r = (snd q) \<lparr> urls := served_by k (occurrences ls) \<rparr>"
    unfolding merged_entry by blast
  from first_seen_Some [OF q] show ?thesis unfolding r by simp
qed

lemma merged_distinct_keys: "distinct (map fst (merge_from 0 [] ls))"
  using merge_inv [of "occurrences ls"] unfolding merge_from_occurrences by blast

lemma merged_models_eq_keys: "map model (merge_models_lists ls) = map (Some \<circ> fst) (merge_from 0 [] ls)"
proof -
  have "\<And>x. x \<in> set (merge_from 0 [] ls) \<Longrightarrow> model (snd x) = Some (fst x)"
    using merged_entry_model [of _ _ ls] by (metis prod.collapse)
  then show ?thesis by (simp add: merge_models_lists_def)
qed

lemma occurrences_from_iff:
  "(i, m) \<in> set (occurrences_from k ls) \<longleftrightarrow>
     k \<le> i \<and> i - k < length ls \<and> (\<exists>ms. ls ! (i - k) = Some ms \<and> m \<in> set ms)"
proof (induction ls arbitrary: k)
  case Nil
  show ?case by simp
next
  case (Cons l ls)
  have IH: "(i, m) \<in> set (occurrences_from (Suc k) ls) \<longleftrightarrow>
     Suc k \<le> i \<and> i - Suc k < length ls \<and> (\<exists>ms. ls ! (i - Suc k) = Some ms \<and> m \<in> set ms)"
    by (rule Cons)
  show ?case
  proof (cases "i = k")
    case True
    with IH show ?thesis by (auto split: option.splits)
  next
    case False
    then have "i < k \<or> (\<exists>j. i - k = Suc j \<and> i - Suc k = j \<and> Suc k \<le> i)" by arith
    then show ?thesis using False
      by (auto simp: IH split: option.splits)
  qed
qed

lemma occurrences_iff:
  "(i, m) \<in> set (occurrences ls) \<longleftrightarrow> i < length ls \<and> (\<exists>ms. ls ! i = Some ms \<and> m \<in> set ms)"
  by (simp add: occurrences_def occurrences_from_iff)

lemma set_served_by:
  "set (served_by name (occurrences ls)) =
     {i. i < length ls \<and> (\<exists>ms m. ls ! i = Some ms \<and> m \<in> set ms \<and> model m = Some name)}"
proof (rule set_eqI)
  fix i
  have "i \<in> set (served_by name (occurrences ls)) \<longleftrightarrow>
        (\<exists>m. (i, m) \<in> set (occurrences ls) \<and> model m = Some name)"
    by (force simp: served_by_def exposes_def)
  then show "i \<in> set (served_by name (occurrences ls)) \<longleftrightarrow>
     i \<in> {i. i < length ls \<and> (\<exists>ms m. ls ! i = Some ms \<and> m \<in> set ms \<and> model m = Some name)}"
    by (auto simp: occurrences_iff)
qed

lemma served_by_nonempty: "first_seen name ps = Some q \<Longrightarrow> served_by name ps \<noteq> []"
  by (auto simp: served_by_def first_seen_def find_Some_iff filter_empty_conv)

text \<open>
  C1. For every sequence of backend listings, \<^verbatim>\<open>merge_models_lists\<close> returns exactly
  one record per model name: the names of the result are distinct and are exactly the
  names some listing exposes. The record of a name is the first entry (in registry
  order) exposing it, with all of that entry's fields, except that \<open>urls\<close> is the list of
  the indices of every backend entry exposing the name, so its elements are exactly the
  backends whose listing contains the name.
\<close>

theorem merge_models_lists_one_record_per_name:
  "distinct (map model (merge_models_lists model_lists))
   \<and> (\<forall>name. Some name \<in> set (map model (merge_models_lists model_lists)) \<longleftrightarrow>
         (\<exists>p \<in> set (occurrences model_lists). exposes name p))
   \<and> (\<forall>r \<in> set (merge_models_lists model_lists). \<exists>name q.
         model r = Some name \<and> first_seen name (occurrences model_lists) = Some q
         \<and> r = (snd q) \<lparr> urls := served_by name (occurrences model_lists) \<rparr>
         \<and> set (urls r) = {i. i < length model_lists \<and>
               (\<exists>ms m. model_lists ! i = Some ms \<and> m \<in> set ms \<and> model m = Some name)})"
proof (intro conjI allI ballI)
  show "distinct (map model (merge_models_lists model_lists))"
    unfolding merged_models_eq_keys using merged_distinct_keys [of model_lists]
    by (simp add: distinct_map comp_inj_on_iff inj_on_def)
next
  fix name
  have "Some name \<in> set (map model (merge_models_lists model_lists)) \<longleftrightarrow>
        (\<exists>r. (name, r) \<in> set (merge_from 0 [] model_lists))"
    unfolding merged_models_eq_keys by force
  also have "\<dots> \<longleftrightarrow> first_seen name (occurrences model_lists) \<noteq> None"
    by (auto simp: merged_entry)
  also have "\<dots> \<longleftrightarrow> (\<exists>p \<in> set (occurrences model_lists). exposes name p)"
    by (simp add: first_seen_None)
  finally show "Some name \<in> set (map model (merge_models_lists model_lists)) \<longleftrightarrow>
         (\<exists>p \<in> set (occurrences model_lists). exposes name p)" .
next
  fix r assume "r \<in> set (merge_models_lists model_lists)"
  then obtain k where kr: "(k, r) \<in> set (merge_from 0 [] model_lists)"
    by (auto simp: merge_models_lists_def)
  then obtain q where q: "first_seen k (occurrences model_lists) = Some q"
    and r: "r = (snd q) \<lparr> urls := served_by k (occurrences model_lists) \<rparr>"
    by (auto simp: merged_entry)
  have "model r = Some k" using kr by (rule merged_entry_model)
  moreover have "set (urls r) = {i. i < length model_lists \<and>
               (\<exists>ms m. model_lists ! i = Some ms \<and> m \<in> set ms \<and> model m = Some k)}"
    unfolding r by (simp add: set_served_by)
  ultimately show "\<exists>name q.
         model r = Some name \<and> first_seen name (occurrences model_lists) = Some q
         \<and> r = (snd q) \<lparr> urls := served_by name (occurrences model_lists) \<rparr>
         \<and> set (urls r) = {i. i < length model_lists \<and>
               (\<exists>ms m. model_lists ! i = Some ms \<and> m \<in> set ms \<and> model m = Some name)}"
    using q r by blast
qed

theorem merge_models_lists_one_record_per_name_witness:
  "merge_models_lists
     [Some [],
      Some [\<lparr> model = Some ''llama3'', urls = [], tags = None, connection_type = None,
              expires_at = None, other = [(''digest'', ''aa'')] \<rparr>],
      None,
      Some [\<lparr> model = Some ''llama3'', urls = [], tags = None, connection_type = None,
              expires_at = None, other = [(''digest'', ''bb'')] \<rparr>,
            \<lparr> model = Some ''phi'', urls = [], tags = None, connection_type = None,
              expires_at = None, other = [] \<rparr>]]
   = [\<lparr> model = Some ''llama3'', urls = [1, 3], tags = None, connection_type = None,
        expires_at = None, other = [(''digest'', ''aa'')] \<rparr>,
      \<lparr> model = Some ''phi'', urls = [3], tags = None, connection_type = None,
        expires_at = None, other = [] \<rparr>]
   \<and> distinct (map model (merge_models_lists
     [Some [],
      Some [\<lparr> model = Some ''llama3'', urls = [], tags = None, connection_type = None,
              expires_at = None, other = [(''digest'', ''aa'')] \<rparr>],
      None,
      Some [\<lparr> model = Some ''llama3'', urls = [], tags = None, connection_type = None,
              expires_at = None, other = [(''digest'', ''bb'')] \<rparr>,
            \<lparr> model = Some ''phi'', urls = [], tags = None, connection_type = None,
              expires_at = None, other = [] \<rparr>]]))"
  (is "?m = ?r \<and> distinct (map model ?m)")
proof -
  have ev: "?m = ?r" by code_simp
  have d: "distinct (map model ?m)"
    using merge_models_lists_one_record_per_name by (rule conjunct1)
  from ev d show ?thesis by (rule conjI)
qed

subsection \<open>The version reconciler\<close>

lemma map_raise_Inr: "(\<And>x. x \<in> set xs \<Longrightarrow> f x = Inr (g x)) \<Longrightarrow> map_raise f xs = Inr (map g xs)"
  by (induction xs) auto

lemma map_raise_Inr_D:
  "map_raise f xs = Inr ys \<Longrightarrow> length ys = length xs \<and> (\<forall>i < length xs. f (xs ! i) = Inr (ys ! i))"
proof (induction xs arbitrary: ys)
  case Nil
  then show ?case by simp
next
  case (Cons x xs)
  from Cons.prems obtain y ys' where y: "f x = Inr y" and ys': "map_raise f xs = Inr ys'"
    and ys: "ys = y # ys'"
    by (auto split: sum.splits)
  from Cons.IH [OF ys'] show ?case unfolding ys using y
    by (auto simp: nth_Cons split: nat.splits)
qed

lemma min_by_key_mem: "min_by_key b xs \<in> set (b # xs)"
  by (induction xs arbitrary: b) auto

lemma min_by_key_le_best: "fst (min_by_key b xs) \<le> fst b"
proof (induction xs arbitrary: b)
  case Nil
  show ?case by simp
next
  case (Cons x xs)
  have "fst (min_by_key (if fst x < fst b then x else b) xs) \<le> fst (if fst x < fst b then x else b)"
    by (rule Cons.IH)
  also have "\<dots> \<le> fst b" by auto
  finally show ?case by simp
qed

lemma min_by_key_le: "x \<in> set (b # xs) \<Longrightarrow> fst (min_by_key b xs) \<le> fst x"
proof (induction xs arbitrary: b)
  case Nil
  then show ?case by simp
next
  case (Cons y ys)
  let ?b = "if fst y < fst b then y else b"
  from Cons.prems consider "x = b" | "x = y" | "x \<in> set ys" by auto
  then show ?case
  proof cases
    case 1
    then show ?thesis using min_by_key_le_best [of b "y # ys"] by simp
  next
    case 2
    have "fst (min_by_key ?b ys) \<le> fst ?b" by (rule min_by_key_le_best)
    also have "\<dots> \<le> fst y" by auto
    finally show ?thesis using 2 by simp
  next
    case 3
    then have "x \<in> set (?b # ys)" by simp
    from Cons.IH [OF this] show ?thesis by simp
  qed
qed


lemma set_not_None: "set (not_None xs) = {r. Some r \<in> set xs}"
  by (induction xs) (auto simp: not_None_def split: option.splits)





























text \<open>
  The key on further inputs, as CPython 3.11 computes it: a \<^verbatim>\<open>-\<close> removes the rest of
  its line, \<^verbatim>\<open>int\<close> tolerates surrounding white space, one sign and single underscores
  between digits, and everything else raises \<^verbatim>\<open>ValueError\<close>.
\<close>

lemma py_nat_digit_limit: "4300 < length (filter (\<lambda>c. c \<noteq> CHR ''_'') s) \<Longrightarrow> py_nat s = None"
  by (simp add: py_nat_def)

lemma version_key_examples:
  "version_key ''v1.10.0-rc1'' = Inr [1, 10, 0]"
  "version_key ''1.2.0-beta.2'' = Inr [1, 2, 0]"
  "version_key ''0.0.0-0-gabc'' = Inr [0, 0, 0]"
  "version_key ''v1-2.3'' = Inr [1]"
  "version_key ''007.1'' = Inr [7, 1]"
  "version_key '' 1 . 2 '' = Inr [1, 2]"
  "version_key ''+1.2'' = Inr [1, 2]"
  "version_key ''1_0.2'' = Inr [10, 2]"
  "version_key ''latest'' = Inl ValueError"
  "version_key ''1.2.x'' = Inl ValueError"
  "version_key [] = Inl ValueError"
  "version_key ''v'' = Inl ValueError"
  "version_key ''-1.2'' = Inl ValueError"
  "version_key ''vv1'' = Inl ValueError"
  "version_key ''V1.2'' = Inl ValueError"
  "version_key ''1..2'' = Inl ValueError"
  "version_key ''1.2.'' = Inl ValueError"
  "version_key ''1__0'' = Inl ValueError"
  "version_key ''1_'' = Inl ValueError"
  "version_key ''_1'' = Inl ValueError"
  "version_key ''+ 1'' = Inl ValueError"
  "version_key (''v1.2.0'' @ [CHR 0x1C]) = Inl ValueError"
  "version_key (''1.2-rc'' @ [CHR 0x0A] @ ''.5'') = Inr [1, 2, 5]"
  "version_key (''1'' @ [CHR 0x0A] @ ''2'') = Inl ValueError"
  by code_simp+

lemma get_versions_pre_release_example:
  "get_versions net3_rc no_requests reg3 None
   = ([Get ''http://a/api/version'' None None, Get ''http://b/api/version'' None None,
       Get ''http://c/api/version'' None None],
      Inr (Version ''1.2.0-beta.2''))"
  by code_simp



text \<open>
  C9, without the condition on the switch: in a registry of three enabled backends that
  are all unreachable, with the runner API switched off, the query does not fail; it
  answers \<^verbatim>\<open>{"version": False}\<close> and fetches nothing.
\<close>

theorem get_versions_api_off_returns_False:
  "backend_enabled reg3_off 0 \<and> backend_enabled reg3_off 1 \<and> backend_enabled reg3_off 2
   \<and> unreachable ''http://a/api/version'' None None = None
   \<and> unreachable ''http://b/api/version'' None None = None
   \<and> unreachable ''http://c/api/version'' None None = None
   \<and> get_versions unreachable no_requests reg3_off None = ([], Inr Version_False)"
  by code_simp



text \<open>
  C5, for every non-empty set of answers: a backend that answers \<^verbatim>\<open>latest\<close> makes the
  query raise \<^verbatim>\<open>ValueError\<close>, and with the runner API switched off the three answers
  of the example are never fetched and the query returns \<^verbatim>\<open>{"version": False}\<close>.
\<close>

theorem get_versions_raises_or_answers_False:
  "version_responses net_latest reg1 = [ver ''latest'']
   \<and> get_versions net_latest no_requests reg1 None
       = ([Get ''http://a/api/version'' None None], Inl ValueError)
   \<and> version_responses net3 reg3_off = [ver ''v1.2.0'', ver ''v1.10.0'', ver ''v1.2.5'']
   \<and> get_versions net3 no_requests reg3_off None = ([], Inr Version_False)"
  by code_simp

subsection \<open>Request tasks\<close>

lemma request_task_eq:
  "request_task configs path usr idx url =
     (if cfg_enabled (api_config_for configs (str_nat idx) url)
      then Get (url @ path) (cfg_key (api_config_for configs (str_nat idx) url)) usr
      else Sleep)"
  by (simp add: request_task_def api_config_for_def cfg_enabled_def empty_api_config_def Let_def)

lemma length_request_tasks [simp]: "length (request_tasks configs base_urls path usr) = length base_urls"
  by (simp add: request_tasks_def)

lemma nth_request_tasks:
  "i < length base_urls \<Longrightarrow>
   request_tasks configs base_urls path usr ! i = request_task configs path usr i (base_urls ! i)"
  by (simp add: request_tasks_def nth_enumerate_eq)

lemma request_tasks_disabled:
  "i < length (DOCKER_MODEL_RUNNER_BASE_URLS c) \<Longrightarrow> \<not> backend_enabled c i \<Longrightarrow>
   request_tasks (DOCKER_MODEL_RUNNER_API_CONFIGS c) (DOCKER_MODEL_RUNNER_BASE_URLS c) path usr ! i = Sleep"
  by (simp add: nth_request_tasks request_task_eq backend_enabled_def)

lemma request_tasks_enabled:
  "i < length (DOCKER_MODEL_RUNNER_BASE_URLS c) \<Longrightarrow> backend_enabled c i \<Longrightarrow>
   request_tasks (DOCKER_MODEL_RUNNER_API_CONFIGS c) (DOCKER_MODEL_RUNNER_BASE_URLS c) path usr ! i
     = Get (DOCKER_MODEL_RUNNER_BASE_URLS c ! i @ path) (cfg_key (backend_config c i)) usr"
  by (simp add: nth_request_tasks request_task_eq backend_enabled_def backend_config_def)

lemma length_gather [simp]: "length (gather net ts) = length ts"
  by (simp add: gather_def)

lemma length_tags_responses [simp]:
  "length (tags_responses net c usr) = length (DOCKER_MODEL_RUNNER_BASE_URLS c)"
  by (simp add: tags_responses_def)

lemma tags_response_disabled:
  "i < length (DOCKER_MODEL_RUNNER_BASE_URLS c) \<Longrightarrow> \<not> backend_enabled c i \<Longrightarrow>
   tags_responses net c usr ! i = None"
  by (simp add: tags_responses_def gather_def request_tasks_disabled)

lemma tags_response_enabled:
  "i < length (DOCKER_MODEL_RUNNER_BASE_URLS c) \<Longrightarrow> backend_enabled c i \<Longrightarrow>
   tags_responses net c usr ! i
     = net (DOCKER_MODEL_RUNNER_BASE_URLS c ! i @ ''/api/tags'') (cfg_key (backend_config c i)) usr"
  by (simp add: tags_responses_def gather_def request_tasks_enabled send_get_request_def)

subsection \<open>Transport, validation and resolution\<close>

text \<open>
  C2. A streaming POST whose upstream answers with an error status and a body that is
  not JSON: \<^verbatim>\<open>r.json()\<close> raises before \<^verbatim>\<open>cleanup_response\<close> is reached, and the
  \<^verbatim>\<open>finally\<close> clause releases only when \<^verbatim>\<open>stream\<close> is false. The function raises with
  the response and the session closed zero times, where the claim demands exactly one
  release on every outcome.
\<close>

theorem send_post_request_unparseable_error_body_never_released:
  "send_post_request (Some True) (Some ''application/x-ndjson'')
     (Post_reply \<lparr> reply_status = 502, reply_json = None, reply_headers = [] \<rparr>)
   = (Inl (HTTPException 502 (Text ''Open WebUI: Server Connection Error'')),
      \<lparr> response_close_calls = 0, session_close_calls = 0 \<rparr>)"
  by (simp add: send_post_request_def)

text \<open>The sibling path, an error body that parses, does release once.\<close>

lemma send_post_request_parsed_error_released_once:
  "send_post_request (Some True) (Some ''application/x-ndjson'')
     (Post_reply \<lparr> reply_status = 502, reply_json = Some \<lparr> error_key = Some ''boom'', json_rest = [] \<rparr>,
                    reply_headers = [] \<rparr>)
   = (Inl (HTTPException 502 (Text ''boom'')),
      \<lparr> response_close_calls = 1, session_close_calls = 1 \<rparr>)"
  by (simp add: send_post_request_def cleanup_response_def)

text \<open>
  C3. A message with \<^verbatim>\<open>content: null\<close> and a non-empty \<^verbatim>\<open>tool_calls\<close> list: when the
  validator of \<^verbatim>\<open>content\<close> runs, \<^verbatim>\<open>tool_calls\<close> has not been validated yet and is
  not in \<^verbatim>\<open>values\<close>, so the message is rejected and the chat request fails with
  status 400, where the claim says that such a message passes.
\<close>

theorem tool_call_message_without_content_rejected:
  "validate_ChatMessage tool_call_message = Inl ValidationError
   \<and> chat_payload env (chat_for ''llama3:latest'' [tool_call_message]) usr bypass_filter
       = Inl (HTTPException 400 (Exception_text []))"
  by (simp add: validate_ChatMessage_def tool_call_message_def check_at_least_one_field_def
      chat_payload_def chat_for_def GenerateChatCompletionForm_def)

text \<open>A message that leaves the key \<^verbatim>\<open>content\<close> out is accepted: no validator runs.\<close>

lemma no_content_key_accepted:
  "validate_ChatMessage \<lparr> raw_role = Val ''user'', raw_content = Absent,
                           raw_tool_calls = Absent, raw_images = Absent \<rparr>
   = Inr \<lparr> role = ''user'', content = None, tool_calls = None, images = None \<rparr>"
  by (simp add: validate_ChatMessage_def)

lemma names_MODEL_NOT_FOUND: "names (MODEL_NOT_FOUND name) name"
  unfolding names_def MODEL_NOT_FOUND_def
  by (rule exI [of _ 6]) simp

text \<open>
  C6. For every model name that is not a key of the index
  \<^verbatim>\<open>DOCKER_MODEL_RUNNER_MODELS\<close>, unpinned resolution raises \<^verbatim>\<open>HTTPException\<close> with
  status 400 and the message \<^verbatim>\<open>MODEL_NOT_FOUND\<close> of that name, which names it; and a
  chat request that reaches resolution with this name ends with that error and issues
  no POST to any backend.
\<close>

theorem get_runner_url_unknown_model:
  assumes "map_of (DOCKER_MODEL_RUNNER_MODELS st) model_name = None"
  shows "get_runner_url st model_name None seed
           = Inl (HTTPException 400 (Text (MODEL_NOT_FOUND model_name)))
         \<and> names (MODEL_NOT_FOUND model_name) model_name
         \<and> (\<forall>env post form_data usr bypass_filter form p.
               chat_payload env form_data usr bypass_filter = Inr (form, p)
               \<and> payload_model p = model_name \<longrightarrow>
               generate_chat_completion env post st form_data None usr bypass_filter seed
                 = ([], Inl (HTTPException 400 (Text (MODEL_NOT_FOUND model_name))),
                    \<lparr> response_close_calls = 0, session_close_calls = 0 \<rparr>))"
proof -
  have r: "get_runner_url st model_name None seed
           = Inl (HTTPException 400 (Text (MODEL_NOT_FOUND model_name)))"
    using assms by (simp add: get_runner_url_def)
  have c: "generate_chat_completion env post st form_data None usr bypass_filter seed
                 = ([], Inl (HTTPException 400 (Text (MODEL_NOT_FOUND model_name))),
                    \<lparr> response_close_calls = 0, session_close_calls = 0 \<rparr>)"
    if "chat_payload env form_data usr bypass_filter = Inr (form, p)"
      and "payload_model p = model_name"
    for env post form_data usr bypass_filter form p
    using that r by (simp add: generate_chat_completion_def chat_route_def)
  from r c names_MODEL_NOT_FOUND show ?thesis by blast
qed

subsection \<open>The catalog refresh\<close>

lemma map_raise_total:
  "(\<And>x. x \<in> set xs \<Longrightarrow> \<exists>y. f x = Inr y) \<Longrightarrow> map_raise f xs = Inr (map (\<lambda>x. projr (f x)) xs)"
proof (rule map_raise_Inr)
  fix x assume "x \<in> set xs" and "\<And>x. x \<in> set xs \<Longrightarrow> \<exists>y. f x = Inr y"
  then obtain y where "f x = Inr y" by blast
  then show "f x = Inr (projr (f x))" by simp
qed

lemma transform_model_named:
  "model m = Some n \<Longrightarrow>
   \<exists>m'. transform_model a m = Inr m' \<and> model m' = Some (catalog_name a n) \<and> urls m' = urls m"
  by (simp add: transform_model_def prefix_model_def catalog_name_def Let_def)

lemma filter_model_ids_named:
  "None \<notin> set (map model ms) \<Longrightarrow>
   filter_model_ids ids ms = Inr (filter (\<lambda>m. \<exists>n \<in> set ids. model m = Some n) ms)"
  by (simp add: filter_model_ids_def)

lemma allowed_filter:
  "(if model_ids \<noteq> [] then filter (\<lambda>m. \<exists>n \<in> set model_ids. model m = Some n) ms else ms)
   = filter (\<lambda>m. \<exists>n. model m = Some n \<and> (model_ids = [] \<or> n \<in> set model_ids)) ms"
  if "None \<notin> set (map model ms)"
proof (cases "model_ids = []")
  case True
  have "filter (\<lambda>m. \<exists>n. model m = Some n) ms = ms"
    using that by (induction ms) auto
  with True show ?thesis by simp
next
  case False
  then show ?thesis by (auto intro!: filter_cong)
qed

lemma allowed_iff:
  "allowed a n \<longleftrightarrow>
     ((case cfg_model_ids a of None \<Rightarrow> [] | Some ids \<Rightarrow> ids) = []
      \<or> n \<in> set (case cfg_model_ids a of None \<Rightarrow> [] | Some ids \<Rightarrow> ids))"
  by (simp add: allowed_def split: option.splits)

lemma transform_models_named:
  assumes nm: "None \<notin> set (map model ms)"
  shows "(case (if ids \<noteq> [] then filter_model_ids ids ms else Inr ms) of
            Inl e \<Rightarrow> Inl e
          | Inr ms1 \<Rightarrow>
              (case map_raise (transform_model a) ms1 of
                 Inl e \<Rightarrow> Inl e
               | Inr ms2 \<Rightarrow> Inr (Some ms2)))
         = Inr (Some (map (\<lambda>m. projr (transform_model a m))
                        (filter (\<lambda>m. \<exists>n. model m = Some n \<and> (ids = [] \<or> n \<in> set ids)) ms)))"
proof -
  define ms1 where "ms1 = filter (\<lambda>m. \<exists>n. model m = Some n \<and> (ids = [] \<or> n \<in> set ids)) ms"
  have f: "(if ids \<noteq> [] then filter_model_ids ids ms else Inr ms) = Inr ms1"
    unfolding ms1_def allowed_filter [OF nm, symmetric]
    by (simp add: filter_model_ids_named [OF nm])
  have "\<And>m. m \<in> set ms1 \<Longrightarrow> \<exists>y. transform_model a m = Inr y"
    using transform_model_named [of _ _ a] unfolding ms1_def by fastforce
  then have "map_raise (transform_model a) ms1 = Inr (map (\<lambda>m. projr (transform_model a m)) ms1)"
    by (rule map_raise_total)
  with f show ?thesis unfolding ms1_def by simp
qed

lemma transform_tags_response_named:
  assumes "named response"
  shows "\<exists>r'. transform_tags_response (DOCKER_MODEL_RUNNER_API_CONFIGS c) (DOCKER_MODEL_RUNNER_BASE_URLS c)
                 (idx, response) = Inr r'
              \<and> listing r' = shaped_listing c idx response"
proof (cases response)
  case None
  then show ?thesis
    by (simp add: transform_tags_response_def listing_def shaped_listing_def)
next
  case (Some r)
  show ?thesis
  proof (cases "truthy_response r")
    case False
    with Some show ?thesis
      by (simp add: transform_tags_response_def listing_def shaped_listing_def)
  next
    case True
    show ?thesis
    proof (cases "models r")
      case None
      have "truthy_response (r \<lparr> models := None \<rparr>)"
        using None True by (simp add: truthy_response_def)
      with None True Some show ?thesis
        by (simp add: transform_tags_response_def listing_def shaped_listing_def Let_def)
    next
      case (Some ms)
      from assms \<open>response = Some r\<close> Some have nm: "None \<notin> set (map model ms)"
        by (simp add: named_def)
      let ?a = "backend_config c idx"
      let ?ids = "case cfg_model_ids ?a of None \<Rightarrow> [] | Some ids \<Rightarrow> ids"
      let ?ms2 = "map (\<lambda>m. projr (transform_model ?a m))
                    (filter (\<lambda>m. \<exists>n. model m = Some n \<and> allowed ?a n) ms)"
      have t0: "transform_tags_response (DOCKER_MODEL_RUNNER_API_CONFIGS c)
                 (DOCKER_MODEL_RUNNER_BASE_URLS c) (idx, response)
               = (case (case (if ?ids \<noteq> [] then filter_model_ids ?ids ms else Inr ms) of
                          Inl e \<Rightarrow> Inl e
                        | Inr ms1 \<Rightarrow>
                            (case map_raise (transform_model ?a) ms1 of
                               Inl e \<Rightarrow> Inl e
                             | Inr ms2 \<Rightarrow> Inr (Some ms2))) of
                    Inl e \<Rightarrow> Inl e
                  | Inr new_models \<Rightarrow> Inr (Some (r \<lparr> models := new_models \<rparr>)))"
        unfolding transform_tags_response_def backend_config_def Let_def fst_conv snd_conv
        using True Some \<open>response = Some r\<close> by simp
      have al: "(\<lambda>m::model_entry. \<exists>n. model m = Some n \<and> (?ids = [] \<or> n \<in> set ?ids))
                = (\<lambda>m. \<exists>n. model m = Some n \<and> allowed ?a n)"
        by (simp only: allowed_iff)
      have t: "transform_tags_response (DOCKER_MODEL_RUNNER_API_CONFIGS c)
                 (DOCKER_MODEL_RUNNER_BASE_URLS c) (idx, response)
               = Inr (Some (r \<lparr> models := Some ?ms2 \<rparr>))"
        unfolding t0 transform_models_named [OF nm, where ids = ?ids and a = ?a] al
        by (simp only: sum.case)
      have "truthy_response (r \<lparr> models := Some ?ms2 \<rparr>)"
        by (simp add: truthy_response_def)
      then have "listing (Some (r \<lparr> models := Some ?ms2 \<rparr>)) = shaped_listing c idx response"
        using True Some \<open>response = Some r\<close> by (simp add: listing_def shaped_listing_def)
      with t show ?thesis by blast
    qed
  qed
qed

lemma transform_all_named:
  assumes "\<forall>r \<in> set rs. named r"
  shows "\<exists>rs'. map_raise (transform_tags_response (DOCKER_MODEL_RUNNER_API_CONFIGS c)
                   (DOCKER_MODEL_RUNNER_BASE_URLS c)) (enumerate 0 rs) = Inr rs'
               \<and> map listing rs' = map (\<lambda>ir. shaped_listing c (fst ir) (snd ir)) (enumerate 0 rs)"
proof -
  let ?f = "transform_tags_response (DOCKER_MODEL_RUNNER_API_CONFIGS c) (DOCKER_MODEL_RUNNER_BASE_URLS c)"
  have each: "\<exists>r'. ?f x = Inr r' \<and> listing r' = shaped_listing c (fst x) (snd x)"
    if "x \<in> set (enumerate 0 rs)" for x
  proof -
    from that have "fst x < length rs" and "rs ! fst x = snd x"
      by (auto simp: in_set_enumerate_eq)
    then have "snd x \<in> set rs" by (metis nth_mem)
    with assms have "named (snd x)" by blast
    from transform_tags_response_named [OF this, of c "fst x"] show ?thesis by simp
  qed
  then have "map_raise ?f (enumerate 0 rs) = Inr (map (\<lambda>x. projr (?f x)) (enumerate 0 rs))"
    by (intro map_raise_total) blast
  moreover have "map listing (map (\<lambda>x. projr (?f x)) (enumerate 0 rs))
      = map (\<lambda>ir. shaped_listing c (fst ir) (snd ir)) (enumerate 0 rs)"
    using each by (fastforce simp: comp_def)
  ultimately show ?thesis by blast
qed

lemma annotate_expiry_keeps:
  "map model (annotate_expiry ts em ms) = map model ms
   \<and> map urls (annotate_expiry ts em ms) = map urls ms"
  by (induction ms) (auto split: option.splits expiry.splits)

lemma update_fresh: "k \<notin> fst ` set d \<Longrightarrow> AList.update k v d = d @ [(k, v)]"
  by (induction d) auto

lemma dict_of_distinct: "distinct (map fst kvs) \<Longrightarrow> dict_of kvs = kvs"
proof (induction kvs rule: rev_induct)
  case Nil
  show ?case by (simp add: dict_of_def)
next
  case (snoc kv kvs)
  then have "dict_of kvs = kvs" and "fst kv \<notin> fst ` set kvs" by auto
  then show ?case
    using update_fresh [of "fst kv" kvs "snd kv"] by (simp add: dict_of_def)
qed

lemma models_index_named:
  assumes "None \<notin> set (map model ms)" and "distinct (map model ms)"
  shows "models_index ms = Inr (map (\<lambda>m. (the (model m), m)) ms)"
proof -
  let ?f = "\<lambda>m::model_entry. case model m of None \<Rightarrow> Inl (KeyError ''model'') | Some k \<Rightarrow> Inr (k, m)"
  have "\<And>m. m \<in> set ms \<Longrightarrow> ?f m = Inr (the (model m), m)"
    using assms(1) by (force split: option.splits)
  then have mr: "map_raise ?f ms = Inr (map (\<lambda>m. (the (model m), m)) ms)"
    by (rule map_raise_Inr)
  have "inj_on the (set (map model ms))"
  proof (rule inj_onI)
    fix a b :: "string option"
    assume "a \<in> set (map model ms)" "b \<in> set (map model ms)" "the a = the b"
    with assms(1) show "a = b" by (cases a; cases b) auto
  qed
  with assms(2) have "distinct (map the (map model ms))"
    by (simp only: distinct_map)
  then have "distinct (map fst (map (\<lambda>m. (the (model m), m)) ms))"
    by (simp add: comp_def)
  then show ?thesis unfolding models_index_def mr
    by (simp add: dict_of_distinct)
qed

lemma get_loaded_models_tasks:
  "fst (get_loaded_models net c usr)
     = (if enabled_api c
        then request_tasks (DOCKER_MODEL_RUNNER_API_CONFIGS c) (DOCKER_MODEL_RUNNER_BASE_URLS c) ''/api/ps'' usr
        else [])"
  by (simp add: get_loaded_models_def Let_def split: sum.splits)

lemma merged_named: "None \<notin> set (map model (merge_models_lists ls))"
  unfolding merged_models_eq_keys by auto

lemma merged_distinct: "distinct (map model (merge_models_lists ls))"
  unfolding merged_models_eq_keys using merged_distinct_keys [of ls]
  by (simp add: distinct_map comp_inj_on_iff inj_on_def)

lemma merged_record:
  assumes "r \<in> set (merge_models_lists ls)"
  shows "\<exists>name. model r = Some name \<and> urls r \<noteq> []
           \<and> set (urls r) = {i. i < length ls \<and>
                 (\<exists>ms m. ls ! i = Some ms \<and> m \<in> set ms \<and> model m = Some name)}"
proof -
  from assms obtain k where kr: "(k, r) \<in> set (merge_from 0 [] ls)"
    by (auto simp: merge_models_lists_def)
  then obtain q where q: "first_seen k (occurrences ls) = Some q"
    and r: "r = (snd q) \<lparr> urls := served_by k (occurrences ls) \<rparr>"
    unfolding merged_entry by blast
  have "model r = Some k" using kr by (rule merged_entry_model)
  moreover have "urls r \<noteq> []" unfolding r using served_by_nonempty [OF q] by simp
  moreover have "set (urls r) = {i. i < length ls \<and>
                 (\<exists>ms m. ls ! i = Some ms \<and> m \<in> set ms \<and> model m = Some k)}"
    unfolding r by (simp add: set_served_by)
  ultimately show ?thesis by blast
qed

lemma merged_exposed:
  assumes "i < length ls" and "ls ! i = Some ms" and "m \<in> set ms" and "model m = Some name"
  shows "\<exists>r \<in> set (merge_models_lists ls). model r = Some name \<and> i \<in> set (urls r)"
proof -
  from assms have occ: "(i, m) \<in> set (occurrences ls)" by (simp add: occurrences_iff)
  moreover have "exposes name (i, m)" using assms(4) by (simp add: exposes_def)
  ultimately have "first_seen name (occurrences ls) \<noteq> None"
    unfolding first_seen_None by blast
  then obtain q where q: "first_seen name (occurrences ls) = Some q" by blast
  define r where "r = (snd q) \<lparr> urls := served_by name (occurrences ls) \<rparr>"
  have "(name, r) \<in> set (merge_from 0 [] ls)"
    unfolding merged_entry using q r_def by blast
  then have mem: "r \<in> set (merge_models_lists ls)" and mo: "model r = Some name"
    by (force simp: merge_models_lists_def, rule merged_entry_model)
  have "i \<in> set (urls r)"
    unfolding r_def using assms by (auto simp: set_served_by)
  with mem mo show ?thesis by blast
qed

lemma get_all_models_enabled:
  assumes en: "enabled_api (config st)"
    and nm: "\<forall>r \<in> set (tags_responses net (config st) usr). named r"
  shows "\<exists>cat. get_all_models env net st usr
           = (request_tasks (DOCKER_MODEL_RUNNER_API_CONFIGS (config st))
                (DOCKER_MODEL_RUNNER_BASE_URLS (config st)) ''/api/tags'' usr,
              request_tasks (DOCKER_MODEL_RUNNER_API_CONFIGS (config st))
                (DOCKER_MODEL_RUNNER_BASE_URLS (config st)) ''/api/ps'' usr,
              Inr (cat, st \<lparr> DOCKER_MODEL_RUNNER_MODELS := map (\<lambda>m. (the (model m), m)) cat \<rparr>))
         \<and> map model cat = map model (merge_models_lists (tags_listings net (config st) usr))
         \<and> map urls cat = map urls (merge_models_lists (tags_listings net (config st) usr))"
proof -
  let ?c = "config st"
  let ?tasks = "request_tasks (DOCKER_MODEL_RUNNER_API_CONFIGS ?c)
                  (DOCKER_MODEL_RUNNER_BASE_URLS ?c) ''/api/tags'' usr"
  from transform_all_named [OF nm, of ?c] obtain rs'
    where tr: "map_raise (transform_tags_response (DOCKER_MODEL_RUNNER_API_CONFIGS ?c)
                 (DOCKER_MODEL_RUNNER_BASE_URLS ?c)) (enumerate 0 (gather net ?tasks)) = Inr rs'"
      and ls: "map listing rs' = tags_listings net ?c usr"
    unfolding tags_listings_def tags_responses_def by blast
  define merged where "merged = merge_models_lists (tags_listings net ?c usr)"
  define cat where "cat =
     (case snd (get_loaded_models net ?c usr) of
        Inl e \<Rightarrow> merged
      | Inr loaded_models \<Rightarrow>
          (case expires_map loaded_models of
             Inl e \<Rightarrow> merged
           | Inr em \<Rightarrow> annotate_expiry (iso_timestamp env) em merged))"
  have keep: "map model cat = map model merged \<and> map urls cat = map urls merged"
    unfolding cat_def by (simp add: annotate_expiry_keeps split: sum.splits)
  have "None \<notin> set (map model cat)" and "distinct (map model cat)"
    using keep merged_named [of "tags_listings net ?c usr"]
      merged_distinct [of "tags_listings net ?c usr"] unfolding merged_def by simp_all
  then have ix: "models_index cat = Inr (map (\<lambda>m. (the (model m), m)) cat)"
    by (rule models_index_named)
  have "get_all_models env net st usr
           = (?tasks, fst (get_loaded_models net ?c usr),
              Inr (cat, st \<lparr> DOCKER_MODEL_RUNNER_MODELS := map (\<lambda>m. (the (model m), m)) cat \<rparr>))"
    unfolding get_all_models_def Let_def tr sum.case ls merged_def [symmetric] cat_def [symmetric] ix
    using en by simp
  with keep en show ?thesis
    unfolding merged_def by (simp add: get_loaded_models_tasks)
qed

lemma get_all_models_disabled:
  "\<not> enabled_api (config st) \<Longrightarrow>
   get_all_models env net st usr = ([], [], Inr ([], st \<lparr> DOCKER_MODEL_RUNNER_MODELS := [] \<rparr>))"
  by (simp add: get_all_models_def models_index_def dict_of_def)

lemma length_tags_listings [simp]:
  "length (tags_listings net c usr) = length (DOCKER_MODEL_RUNNER_BASE_URLS c)"
  by (simp add: tags_listings_def)

lemma nth_tags_listings:
  "i < length (DOCKER_MODEL_RUNNER_BASE_URLS c) \<Longrightarrow>
   tags_listings net c usr ! i = shaped_listing c i (tags_responses net c usr ! i)"
  by (simp add: tags_listings_def nth_enumerate_eq)

lemma shaped_listing_Some:
  "shaped_listing c i resp = Some ms \<Longrightarrow> \<exists>r. resp = Some r \<and> truthy_response r"
  by (cases resp) (auto simp: shaped_listing_def split: if_splits)

lemma shaped_listing_mem:
  assumes "resp = Some r" and "truthy_response r" and "models r = Some ms" and "m \<in> set ms"
    and "model m = Some n" and "allowed (backend_config c i) n"
  shows "\<exists>ms' m'. shaped_listing c i resp = Some ms' \<and> m' \<in> set ms'
           \<and> model m' = Some (catalog_name (backend_config c i) n)"
proof -
  let ?a = "backend_config c i"
  let ?ms' = "map (\<lambda>m. projr (transform_model ?a m))
                (filter (\<lambda>m. \<exists>n. model m = Some n \<and> allowed ?a n) ms)"
  have s: "shaped_listing c i resp = Some ?ms'"
    using assms(1-3) by (simp add: shaped_listing_def)
  from transform_model_named [OF assms(5), of ?a]
  have "model (projr (transform_model ?a m)) = Some (catalog_name ?a n)" by auto
  moreover have "projr (transform_model ?a m) \<in> set ?ms'"
    using assms(4-6) by auto
  ultimately show ?thesis using s by blast
qed

lemma same_fields:
  assumes "map f xs = map f ys" and "map g xs = map g ys" and "x \<in> set xs"
  shows "\<exists>y \<in> set ys. f y = f x \<and> g y = g x"
proof -
  from assms(3) obtain j where j: "j < length xs" and x: "xs ! j = x"
    by (auto simp: in_set_conv_nth)
  from assms(1) have len: "length xs = length ys" by (rule map_eq_imp_length_eq)
  from assms(1) j len have "f (xs ! j) = f (ys ! j)" by (metis nth_map)
  moreover from assms(2) j len have "g (xs ! j) = g (ys ! j)" by (metis nth_map)
  moreover have "ys ! j \<in> set ys" using j len by simp
  ultimately show ?thesis using x by metis
qed

lemma catalog_record:
  fixes cat :: "model_entry list"
  assumes keep: "map model cat = map model (merge_models_lists (tags_listings net c usr))"
                "map urls cat = map urls (merge_models_lists (tags_listings net c usr))"
    and r: "r \<in> set cat"
  shows "urls r \<noteq> [] \<and> (\<exists>name. model r = Some name)
         \<and> (\<forall>i \<in> set (urls r). i < length (DOCKER_MODEL_RUNNER_BASE_URLS c) \<and> backend_enabled c i
               \<and> (\<exists>resp. net (DOCKER_MODEL_RUNNER_BASE_URLS c ! i @ ''/api/tags'')
                              (cfg_key (backend_config c i)) usr = Some resp
                           \<and> truthy_response resp))"
proof -
  let ?ls = "tags_listings net c usr"
  from same_fields [OF keep r] obtain r' where r': "r' \<in> set (merge_models_lists ?ls)"
    and mo: "model r' = model r" and ur: "urls r' = urls r" by blast
  from merged_record [OF r'] obtain name where name: "model r' = Some name"
    and ne: "urls r' \<noteq> []"
    and su: "set (urls r') = {i. i < length ?ls \<and>
                 (\<exists>ms m. ?ls ! i = Some ms \<and> m \<in> set ms \<and> model m = Some name)}" by blast
  have each: "i < length (DOCKER_MODEL_RUNNER_BASE_URLS c) \<and> backend_enabled c i
               \<and> (\<exists>resp. net (DOCKER_MODEL_RUNNER_BASE_URLS c ! i @ ''/api/tags'')
                              (cfg_key (backend_config c i)) usr = Some resp
                           \<and> truthy_response resp)"
    if "i \<in> set (urls r)" for i
  proof -
    from that su ur obtain ms where i: "i < length (DOCKER_MODEL_RUNNER_BASE_URLS c)"
      and ms: "?ls ! i = Some ms" by auto
    from ms have "shaped_listing c i (tags_responses net c usr ! i) = Some ms"
      by (simp add: nth_tags_listings [OF i])
    from shaped_listing_Some [OF this] obtain resp
      where resp: "tags_responses net c usr ! i = Some resp" and tr: "truthy_response resp" by blast
    have en: "backend_enabled c i"
      using tags_response_disabled [OF i, of net usr] resp by auto
    from tags_response_enabled [OF i en, of net usr] resp tr i en show ?thesis by metis
  qed
  from ne name mo ur each show ?thesis by auto
qed

lemma catalog_contains:
  fixes cat :: "model_entry list"
  assumes keep: "map model cat = map model (merge_models_lists (tags_listings net c usr))"
                "map urls cat = map urls (merge_models_lists (tags_listings net c usr))"
    and i: "i < length (DOCKER_MODEL_RUNNER_BASE_URLS c)" and en: "backend_enabled c i"
    and resp: "net (DOCKER_MODEL_RUNNER_BASE_URLS c ! i @ ''/api/tags'')
                 (cfg_key (backend_config c i)) usr = Some r"
    and tr: "truthy_response r" and ms: "models r = Some ms" and m: "m \<in> set ms"
    and n: "model m = Some n" and al: "allowed (backend_config c i) n"
  shows "\<exists>x \<in> set cat. model x = Some (catalog_name (backend_config c i) n) \<and> i \<in> set (urls x)"
proof -
  let ?ls = "tags_listings net c usr"
  have "tags_responses net c usr ! i = Some r"
    using tags_response_enabled [OF i en, of net usr] resp by simp
  from shaped_listing_mem [OF this tr ms m n al] obtain ms' m'
    where "?ls ! i = Some ms'" and "m' \<in> set ms'"
      and "model m' = Some (catalog_name (backend_config c i) n)"
    by (auto simp: nth_tags_listings [OF i])
  with i merged_exposed [of i ?ls ms' m' "catalog_name (backend_config c i) n"]
  obtain x' where x': "x' \<in> set (merge_models_lists ?ls)"
    and mo: "model x' = Some (catalog_name (backend_config c i) n)" and iu: "i \<in> set (urls x')"
    by auto
  from same_fields [OF keep(1) [symmetric] keep(2) [symmetric] x'] mo iu
  show ?thesis by auto
qed

lemma get_all_models_cases:
  assumes nm: "\<forall>r \<in> set (tags_responses net (config st) usr). named r"
  shows "(\<not> enabled_api (config st)
           \<and> get_all_models env net st usr = ([], [], Inr ([], st \<lparr> DOCKER_MODEL_RUNNER_MODELS := [] \<rparr>)))
         \<or> (enabled_api (config st)
           \<and> (\<exists>cat. get_all_models env net st usr
                 = (request_tasks (DOCKER_MODEL_RUNNER_API_CONFIGS (config st))
                      (DOCKER_MODEL_RUNNER_BASE_URLS (config st)) ''/api/tags'' usr,
                    request_tasks (DOCKER_MODEL_RUNNER_API_CONFIGS (config st))
                      (DOCKER_MODEL_RUNNER_BASE_URLS (config st)) ''/api/ps'' usr,
                    Inr (cat, st \<lparr> DOCKER_MODEL_RUNNER_MODELS := map (\<lambda>m. (the (model m), m)) cat \<rparr>))
               \<and> map model cat = map model (merge_models_lists (tags_listings net (config st) usr))
               \<and> map urls cat = map urls (merge_models_lists (tags_listings net (config st) usr))))"
  using get_all_models_enabled [OF _ nm, of env] get_all_models_disabled [of st env net usr]
  by (cases "enabled_api (config st)") auto

lemma request_tasks_slot:
  assumes "i < length (DOCKER_MODEL_RUNNER_BASE_URLS c)"
  shows "(backend_enabled c i
          \<and> request_tasks (DOCKER_MODEL_RUNNER_API_CONFIGS c) (DOCKER_MODEL_RUNNER_BASE_URLS c) path usr ! i
              = Get (DOCKER_MODEL_RUNNER_BASE_URLS c ! i @ path) (cfg_key (backend_config c i)) usr)
         \<or> (\<not> backend_enabled c i
          \<and> request_tasks (DOCKER_MODEL_RUNNER_API_CONFIGS c) (DOCKER_MODEL_RUNNER_BASE_URLS c) path usr ! i
              = Sleep)"
  using request_tasks_enabled [OF assms] request_tasks_disabled [OF assms] by blast

lemma get_all_models_Inr:
  assumes run: "get_all_models env net st usr = (tt, pt, Inr (cat, st'))"
  shows "\<exists>ls. length ls \<le> length (DOCKER_MODEL_RUNNER_BASE_URLS (config st))
           \<and> map model cat = map model (merge_models_lists ls)
           \<and> map urls cat = map urls (merge_models_lists ls)
           \<and> st' = st \<lparr> DOCKER_MODEL_RUNNER_MODELS := map (\<lambda>m. (the (model m), m)) cat \<rparr>"
proof (cases "enabled_api (config st)")
  case False
  from run get_all_models_disabled [OF False, of env net usr]
  have "cat = []" and "st' = st \<lparr> DOCKER_MODEL_RUNNER_MODELS := [] \<rparr>" by simp_all
  then show ?thesis
    by (intro exI [of _ "[]"]) (simp add: merge_models_lists_def)
next
  case True
  let ?c = "config st"
  let ?tasks = "request_tasks (DOCKER_MODEL_RUNNER_API_CONFIGS ?c)
                  (DOCKER_MODEL_RUNNER_BASE_URLS ?c) ''/api/tags'' usr"
  let ?tr = "map_raise (transform_tags_response (DOCKER_MODEL_RUNNER_API_CONFIGS ?c)
                 (DOCKER_MODEL_RUNNER_BASE_URLS ?c)) (enumerate 0 (gather net ?tasks))"
  show ?thesis
  proof (cases ?tr)
    case (Inl e)
    have "get_all_models env net st usr = (?tasks, [], Inl e)"
      unfolding get_all_models_def Let_def Inl sum.case using True by simp
    with run show ?thesis by simp
  next
    case (Inr rs')
    define merged where "merged = merge_models_lists (map listing rs')"
    define cat' where "cat' =
       (case snd (get_loaded_models net ?c usr) of
          Inl e \<Rightarrow> merged
        | Inr loaded_models \<Rightarrow>
            (case expires_map loaded_models of
               Inl e \<Rightarrow> merged
             | Inr em \<Rightarrow> annotate_expiry (iso_timestamp env) em merged))"
    have keep: "map model cat' = map model merged \<and> map urls cat' = map urls merged"
      unfolding cat'_def by (simp add: annotate_expiry_keeps split: sum.splits)
    have "None \<notin> set (map model cat')" and "distinct (map model cat')"
      using keep merged_named [of "map listing rs'"] merged_distinct [of "map listing rs'"]
      unfolding merged_def by simp_all
    then have ix: "models_index cat' = Inr (map (\<lambda>m. (the (model m), m)) cat')"
      by (rule models_index_named)
    have g: "get_all_models env net st usr
           = (?tasks, fst (get_loaded_models net ?c usr),
              Inr (cat', st \<lparr> DOCKER_MODEL_RUNNER_MODELS := map (\<lambda>m. (the (model m), m)) cat' \<rparr>))"
      unfolding get_all_models_def Let_def Inr sum.case merged_def [symmetric] cat'_def [symmetric] ix
      using True by simp
    have "tt = ?tasks \<and> pt = fst (get_loaded_models net ?c usr) \<and> cat = cat'
          \<and> st' = st \<lparr> DOCKER_MODEL_RUNNER_MODELS := map (\<lambda>m. (the (model m), m)) cat' \<rparr>"
      using g [unfolded run] by (simp only: prod.inject sum.inject)
    then have c: "cat = cat'"
      and s: "st' = st \<lparr> DOCKER_MODEL_RUNNER_MODELS := map (\<lambda>m. (the (model m), m)) cat' \<rparr>"
      by blast+
    from map_raise_Inr_D [OF Inr] have "length (map listing rs') = length (DOCKER_MODEL_RUNNER_BASE_URLS ?c)"
      by simp
    with keep c s show ?thesis unfolding merged_def
      by (intro exI [of _ "map listing rs'"]) simp
  qed
qed

lemma map_of_index:
  fixes cat :: "model_entry list"
  assumes "None \<notin> set (map model cat)" and "distinct (map model cat)"
  shows "map_of (map (\<lambda>m. (the (model m), m)) cat) name = Some r \<longleftrightarrow> r \<in> set cat \<and> model r = Some name"
proof -
  have inj: "inj_on the (set (map model cat))"
  proof (rule inj_onI)
    fix a b :: "string option"
    assume "a \<in> set (map model cat)" "b \<in> set (map model cat)" "the a = the b"
    with assms(1) show "a = b" by (cases a; cases b) auto
  qed
  with assms(2) have "distinct (map the (map model cat))"
    by (simp only: distinct_map)
  then have d: "distinct (map fst (map (\<lambda>m. (the (model m), m)) cat))"
    by (simp add: comp_def)
  have "map_of (map (\<lambda>m. (the (model m), m)) cat) name = Some r
          \<longleftrightarrow> (name, r) \<in> set (map (\<lambda>m. (the (model m), m)) cat)"
    using d by simp
  also have "\<dots> \<longleftrightarrow> r \<in> set cat \<and> the (model r) = name"
    by auto
  also have "\<dots> \<longleftrightarrow> r \<in> set cat \<and> model r = Some name"
  proof (cases "r \<in> set cat")
    case True
    then have "model r \<in> set (map model cat)" by simp
    with assms(1) have "model r \<noteq> None" by metis
    then show ?thesis by auto
  next
    case False
    then show ?thesis by simp
  qed
  finally show ?thesis .
qed

lemma get_runner_url_listed:
  assumes "map_of (DOCKER_MODEL_RUNNER_MODELS st) name = Some r" and "urls r \<noteq> []"
    and "\<forall>i \<in> set (urls r). i < length (DOCKER_MODEL_RUNNER_BASE_URLS (config st))"
  shows "\<exists>i \<in> set (urls r). get_runner_url st name None seed
           = Inr (DOCKER_MODEL_RUNNER_BASE_URLS (config st) ! i, int i)"
proof -
  let ?i = "urls r ! (seed mod length (urls r))"
  have mem: "?i \<in> set (urls r)" using assms(2) by simp
  with assms(3) have "?i < length (DOCKER_MODEL_RUNNER_BASE_URLS (config st))" by blast
  then have "get_runner_url st name None seed
           = Inr (DOCKER_MODEL_RUNNER_BASE_URLS (config st) ! ?i, int ?i)"
    using assms(1,2) by (simp add: get_runner_url_def random_choice_def list_index_def)
  with mem show ?thesis by blast
qed
end
